theory Spec2Isabelle
  imports Complex_Main
begin

section \<open>JavaScript values the handlers depend on\<close>

text \<open>
  A thrown value is either an \<open>Error\<close> object carrying its message or some other
  value. The handlers only ever look at \<open>err instanceof Error ? err.message : "Unknown error"\<close>.
\<close>

datatype exn = ErrorObj string | NonError

fun error_message :: "exn \<Rightarrow> string" where
  "error_message (ErrorObj m) = m"
| "error_message NonError = ''Unknown error''"

text \<open>A JavaScript number as far as the schedule code uses it: \<open>NaN\<close> or a finite value.\<close>

datatype jsnum = NaN | Num real

text \<open>\<open>a !== b\<close> on numbers: \<open>NaN\<close> differs from everything, itself included.\<close>

fun strict_neq :: "jsnum \<Rightarrow> jsnum \<Rightarrow> bool" where
  "strict_neq (Num a) (Num b) = (a \<noteq> b)"
| "strict_neq _ _ = True"

text \<open>\<open>a === 1\<close> on a number.\<close>

fun is_one :: "jsnum \<Rightarrow> bool" where
  "is_one (Num a) = (a = 1)"
| "is_one NaN = False"

definition is_digit :: "char \<Rightarrow> bool" where
  "is_digit c = (c \<in> set ''0123456789'')"

definition digit_val :: "char \<Rightarrow> nat" where
  "digit_val c = of_char c - 48"

definition dec_val :: "string \<Rightarrow> nat" where
  "dec_val s = foldl (\<lambda>acc c. 10 * acc + digit_val c) 0 s"

text \<open>
  The conversions of the language that the handlers use. On a non-empty string of at
  most 15 ASCII digits both \<open>Number\<close> and \<open>parseInt\<close> give the decimal value (it is
  below \<open>2^53\<close>, hence exact), and \<open>Number("")\<close> is 0; \<open>trim\<close> on a string of
  ASCII characters strips the ASCII white space. Every other input (signs, blanks,
  fractions, exponents, hexadecimal, trailing text, longer digit strings, characters
  beyond ASCII) is left to the runtime, which is a parameter: nothing below assumes
  what it answers there.
\<close>

record js_runtime =
  Number_other :: "string \<Rightarrow> jsnum"
  parseInt_other :: "string \<Rightarrow> jsnum"
  trim_other :: "string \<Rightarrow> string"

definition short_digits :: "string \<Rightarrow> bool" where
  "short_digits s = (s \<noteq> [] \<and> length s \<le> 15 \<and> list_all is_digit s)"

definition js_Number :: "js_runtime \<Rightarrow> string \<Rightarrow> jsnum" where
  "js_Number js s =
     (if s = [] then Num 0
      else if short_digits s then Num (real (dec_val s))
      else Number_other js s)"

definition js_parseInt :: "js_runtime \<Rightarrow> string \<Rightarrow> jsnum" where
  "js_parseInt js s =
     (if short_digits s then Num (real (dec_val s))
      else parseInt_other js s)"

text \<open>\<open>s.split(c)\<close> for a one-character separator: never the empty list.\<close>

fun split_on :: "char \<Rightarrow> string \<Rightarrow> string list" where
  "split_on c [] = [[]]"
| "split_on c (x # xs) =
     (if x = c then [] # split_on c xs
      else (case split_on c xs of
              [] \<Rightarrow> [[x]]
            | seg # segs \<Rightarrow> (x # seg) # segs))"

text \<open>\<open>a || b\<close> on strings: the empty string is falsy.\<close>

definition or_default :: "string \<Rightarrow> string \<Rightarrow> string" where
  "or_default s d = (if s = [] then d else s)"

section \<open>ScheduleEvaluator (send-emails: shouldSendNewsletter)\<close>

text \<open>
  \<open>Intl.DateTimeFormat("en-US", {timeZone, ...}).format(new Date())\<close> is the platform's:
  for a time zone it either throws (an unknown zone is a \<open>RangeError\<close>) or yields the
  three texts the code asks for. One reading of the clock serves a whole evaluation.
\<close>

record local_text =
  hourText :: string
  weekdayText :: string
  dayText :: string

type_synonym intl = "string \<Rightarrow> exn + local_text"

definition getCurrentHourInTimezone :: "js_runtime \<Rightarrow> intl \<Rightarrow> string \<Rightarrow> exn + jsnum" where
  "getCurrentHourInTimezone js clock timezone =
     (case clock timezone of
        Inl e \<Rightarrow> Inl e
      | Inr t \<Rightarrow> Inr (js_parseInt js (hourText t)))"

definition dayMap :: "(string \<times> nat) list" where
  "dayMap = [(''Sun'', 0), (''Mon'', 1), (''Tue'', 2), (''Wed'', 3),
             (''Thu'', 4), (''Fri'', 5), (''Sat'', 6)]"

text \<open>\<open>dayMap[dayName]\<close> is \<open>undefined\<close> (here \<open>None\<close>) for a name outside the table.\<close>

definition getCurrentDayInTimezone :: "intl \<Rightarrow> string \<Rightarrow> exn + nat option" where
  "getCurrentDayInTimezone clock timezone =
     (case clock timezone of
        Inl e \<Rightarrow> Inl e
      | Inr t \<Rightarrow> Inr (map_of dayMap (weekdayText t)))"

definition getCurrentDayOfMonthInTimezone :: "js_runtime \<Rightarrow> intl \<Rightarrow> string \<Rightarrow> exn + jsnum" where
  "getCurrentDayOfMonthInTimezone js clock timezone =
     (case clock timezone of
        Inl e \<Rightarrow> Inl e
      | Inr t \<Rightarrow> Inr (js_parseInt js (dayText t)))"

text \<open>
  The hour component of \<open>sendTime\<close>: \<open>const [sendHour] = sendTime.split(":").map(Number)\<close>.
  (Destructuring an empty array would give \<open>undefined\<close>, which like \<open>NaN\<close> differs from
  every hour; \<open>split\<close> never returns one.)
\<close>

definition sendHour_of :: "js_runtime \<Rightarrow> string \<Rightarrow> jsnum" where
  "sendHour_of js sendTime =
     (case map (js_Number js) (split_on CHR '':'' sendTime) of
        [] \<Rightarrow> NaN
      | h # _ \<Rightarrow> h)"

definition shouldSendNewsletter ::
  "js_runtime \<Rightarrow> intl \<Rightarrow> string \<Rightarrow> string \<Rightarrow> string \<Rightarrow> exn + bool" where
  "shouldSendNewsletter js clock frequency sendTime timezone =
     (let sendHour = sendHour_of js sendTime in
      case getCurrentHourInTimezone js clock timezone of
        Inl e \<Rightarrow> Inl e
      | Inr currentHour \<Rightarrow>
          if strict_neq currentHour sendHour then Inr False
          else if frequency = ''daily'' then Inr True
          else if frequency = ''weekly'' then
            (case getCurrentDayInTimezone clock timezone of
               Inl e \<Rightarrow> Inl e
             | Inr currentDay \<Rightarrow> Inr (currentDay = Some 1))
          else if frequency = ''monthly'' then
            (case getCurrentDayOfMonthInTimezone js clock timezone of
               Inl e \<Rightarrow> Inl e
             | Inr currentDayOfMonth \<Rightarrow> Inr (is_one currentDayOfMonth))
          else Inr False)"

section \<open>Scheduled batch (send-emails handler)\<close>

record NewsletterPreferencesViewDTO =
  newsletter_preference_id :: string
  profile_id :: string
  user_id :: string
  email :: string
  username :: string
  timezone :: string
  language :: string
  platform :: string
  followings :: "string list"
  newsletter_enabled :: bool
  frequency :: string
  send_time :: string

record ContentItem =
  title :: string
  url :: string
  publishedAt :: "string option"
  imageUrl :: "string option"
  description :: "string option"

text \<open>
  What \<open>resp.json()\<close> can hand to the batch handler, which takes it as \<open>any\<close>. A
  truthy body is an array of content items, the object \<open>{contents, fetchedAt}\<close> that
  the contents endpoint of this repository answers with, or some other value that is
  not an array; of the last the code only ever reads the \<open>length\<close> property, which is
  a natural number (a non-empty string, an object with such an entry) or \<open>undefined\<close>
  (\<open>true\<close>, a non-zero number, an object without one). A falsy body is \<open>null\<close>,
  \<open>false\<close>, \<open>0\<close> or \<open>""\<close>. Array elements are taken at the type of the endpoint's
  items, and an object whose \<open>length\<close> entry is no natural number is left out.
\<close>

datatype contents_value =
  ContentArray "ContentItem list"
| ContentsSnapshot "ContentItem list" string
| OtherValue "nat option"

datatype json_body = Falsy | Truthy contents_value

text \<open>\<open>v.length\<close>, with \<open>None\<close> for \<open>undefined\<close>; and whether \<open>v.map\<close> is a function.\<close>

fun length_prop :: "contents_value \<Rightarrow> nat option" where
  "length_prop (ContentArray cs) = Some (length cs)"
| "length_prop (ContentsSnapshot cs fetched) = None"
| "length_prop (OtherValue l) = l"

fun is_array :: "contents_value \<Rightarrow> bool" where
  "is_array (ContentArray cs) = True"
| "is_array (ContentsSnapshot cs fetched) = False"
| "is_array (OtherValue l) = False"

text \<open>
  A count as the handler computes it: \<open>sum + f.contents.length\<close> is \<open>NaN\<close> (here
  \<open>None\<close>) as soon as one \<open>length\<close> is \<open>undefined\<close>, and stays so.
\<close>

fun js_plus :: "nat option \<Rightarrow> nat option \<Rightarrow> nat option" where
  "js_plus (Some a) (Some b) = Some (a + b)"
| "js_plus _ _ = None"

text \<open>
  One entry of a recipient's digest (render-email: \<open>FollowingContent\<close>). The handler
  puts into \<open>contents\<close> whatever truthy body it retrieved.
\<close>

record FollowingContent =
  fc_username :: string
  fc_platform :: string
  fc_contents :: contents_value

datatype status = Sent | Failed | Skipped

text \<open>
  \<open>EmailAnalytics\<close> without \<open>id\<close>, \<open>sent_at\<close> and \<open>processing_time_ms\<close>: the first
  is never set by the handler and the other two are wall-clock readings.
\<close>

record EmailAnalytics =
  a_email :: string
  a_user_id :: "string option"
  a_status :: status
  a_error_message :: "string option"
  a_followings_count :: nat
  a_total_contents_count :: "nat option"
  a_platforms :: "string list"
  a_frequency :: string
  a_timezone :: string
  a_send_time :: string

text \<open>
  What \<open>fetch(requestUrl)\<close> does for the contents of one (platform, username):
  it throws, or answers with \<open>resp.ok\<close> and a body whose \<open>resp.json()\<close> throws or
  parses.
\<close>

datatype http_reply =
  FetchThrows exn
| Response bool "exn + json_body"

text \<open>
  The collaborators of one batch run: the language runtime, the clock, the preference
  store's answer to the query for enabled preferences, the HTTP endpoint for contents
  (platform, username, \<open>since\<close>), the library's \<open>render\<close> of the e-mail element
  (given by the element's properties) and the delivery service (recipient, subject,
  html; \<open>None\<close> is success).
\<close>

record mail_env =
  js :: js_runtime
  clock :: intl
  select_all :: "exn + NewsletterPreferencesViewDTO list option"
  http_get :: "string \<Rightarrow> string \<Rightarrow> string \<Rightarrow> http_reply"
  render :: "string \<times> FollowingContent list \<Rightarrow> exn + string"
  ses_send :: "string \<Rightarrow> string \<Rightarrow> string \<Rightarrow> exn option"

record FollowingUser =
  fullName :: string
  fu_username :: string
  profileUrl :: string
  profilePictureUrl :: "string option"

text \<open>The JSON bodies the three handlers answer with.\<close>

datatype body =
  ErrorBody string
| ValidationErrorBody
| InternalErrorBody string
| MessageBody string
| SummaryBody string nat nat "(string \<times> string) list option"
| ContentsBody "ContentItem list" string
| FollowingsBody "FollowingUser list" string

record response =
  statusCode :: nat
  rbody :: body

fun successCount :: "body \<Rightarrow> nat option" where
  "successCount (SummaryBody m s f es) = Some s"
| "successCount _ = None"

fun failureCount :: "body \<Rightarrow> nat option" where
  "failureCount (SummaryBody m s f es) = Some f"
| "failureCount _ = None"

fun errors_of :: "body \<Rightarrow> (string \<times> string) list option" where
  "errors_of (SummaryBody m s f es) = es"
| "errors_of _ = None"

text \<open>
  What a run leaves behind: its response, the batch handed to
  \<open>trackBatchEmailAnalytics\<close> (\<open>None\<close> when it is never called), the calls of the
  renderer and the messages handed to the delivery service.
\<close>

record run_result =
  resp :: response
  tracked :: "EmailAnalytics list option"
  rendered :: "(string \<times> FollowingContent list) list"
  mailed :: "(string \<times> string \<times> string) list"

function show_nat :: "nat \<Rightarrow> string" where
  "show_nat n =
     (if n < 10 then [char_of (48 + n)]
      else show_nat (n div 10) @ [char_of (48 + n mod 10)])"
  by pat_completeness auto
termination
  by (relation "measure id") auto

definition getContentsByPlatformAndUsername ::
  "mail_env \<Rightarrow> string \<Rightarrow> string \<Rightarrow> exn + json_body" where
  "getContentsByPlatformAndUsername env pf un =
     (case http_get env pf un ''today'' of
        FetchThrows e \<Rightarrow> Inl e
      | Response ok json \<Rightarrow>
          if \<not> ok then Inl (ErrorObj ''failed to get contents'') else json)"

definition skipped_record :: "NewsletterPreferencesViewDTO \<Rightarrow> EmailAnalytics" where
  "skipped_record pref =
     \<lparr> a_email = email pref, a_user_id = Some (user_id pref), a_status = Skipped,
       a_error_message = None, a_followings_count = 0, a_total_contents_count = Some 0,
       a_platforms = [platform pref], a_frequency = frequency pref,
       a_timezone = timezone pref, a_send_time = send_time pref \<rparr>"

text \<open>
  \<open>newsletterPreferences.filter(...)\<close>: the kept preferences and the \<open>skipped\<close>
  records pushed on the way, both in the order of the input. An exception of the
  evaluator leaves the callback and the handler.
\<close>

fun filter_due ::
  "mail_env \<Rightarrow> NewsletterPreferencesViewDTO list
     \<Rightarrow> exn + (NewsletterPreferencesViewDTO list \<times> EmailAnalytics list)" where
  "filter_due env [] = Inr ([], [])"
| "filter_due env (pref # rest) =
     (case shouldSendNewsletter (js env) (clock env) (frequency pref) (send_time pref)
             (timezone pref) of
        Inl e \<Rightarrow> Inl e
      | Inr shouldSend \<Rightarrow>
          (case filter_due env rest of
             Inl e \<Rightarrow> Inl e
           | Inr (keep, skipped) \<Rightarrow>
               if shouldSend then Inr (pref # keep, skipped)
               else Inr (keep, skipped_record pref # skipped)))"

text \<open>A \<open>Map\<close> keeps its keys in insertion order; \<open>set\<close> on a present key keeps its place.\<close>

fun map_get :: "('k \<times> 'v) list \<Rightarrow> 'k \<Rightarrow> 'v option" where
  "map_get [] k = None"
| "map_get ((k', v) # m) k = (if k' = k then Some v else map_get m k)"

fun map_set :: "('k \<times> 'v) list \<Rightarrow> 'k \<Rightarrow> 'v \<Rightarrow> ('k \<times> 'v) list" where
  "map_set [] k v = [(k, v)]"
| "map_set ((k', v') # m) k v = (if k' = k then (k, v) # m else (k', v') # map_set m k v)"

definition group_step ::
  "(string \<times> NewsletterPreferencesViewDTO list) list \<Rightarrow> NewsletterPreferencesViewDTO
     \<Rightarrow> (string \<times> NewsletterPreferencesViewDTO list) list" where
  "group_step m pref =
     (let existing = (case map_get m (email pref) of None \<Rightarrow> [] | Some ps \<Rightarrow> ps)
      in map_set m (email pref) (existing @ [pref]))"

definition groupByUser ::
  "NewsletterPreferencesViewDTO list \<Rightarrow> (string \<times> NewsletterPreferencesViewDTO list) list" where
  "groupByUser preferencesToSend = foldl group_step [] preferencesToSend"

text \<open>
  One retrieval inside a recipient's fan-out: the \<open>try\<close> turns any failure into an
  empty content list, and \<open>contents || []\<close> does the same for a falsy body. A truthy
  body is kept as it is.
\<close>

definition fetch_following :: "mail_env \<Rightarrow> NewsletterPreferencesViewDTO \<Rightarrow> FollowingContent" where
  "fetch_following env pref =
     (case getContentsByPlatformAndUsername env (platform pref) (username pref) of
        Inr contents \<Rightarrow>
          \<lparr> fc_username = username pref, fc_platform = platform pref,
            fc_contents = (case contents of Falsy \<Rightarrow> ContentArray [] | Truthy v \<Rightarrow> v) \<rparr>
      | Inl e \<Rightarrow>
          \<lparr> fc_username = username pref, fc_platform = platform pref,
            fc_contents = ContentArray [] \<rparr>)"

definition usersWithContents ::
  "mail_env \<Rightarrow> (string \<times> NewsletterPreferencesViewDTO list) list
     \<Rightarrow> (string \<times> FollowingContent list) list" where
  "usersWithContents env grouped =
     map (\<lambda>(em, preferences). (em, map (fetch_following env) preferences)) grouped"

text \<open>\<open>[...new Set(xs)]\<close>: the first occurrence of each element, in order.\<close>

fun uniq :: "'a list \<Rightarrow> 'a list" where
  "uniq [] = []"
| "uniq (x # xs) = x # filter (\<lambda>y. y \<noteq> x) (uniq xs)"

definition totalContents :: "FollowingContent list \<Rightarrow> nat option" where
  "totalContents fs = foldl (\<lambda>sum f. js_plus sum (length_prop (fc_contents f))) (Some 0) fs"

text \<open>The subject line; \<open>NaN > 0\<close> is false.\<close>

definition subject_of :: "nat option \<Rightarrow> string" where
  "subject_of totalCount =
     (case totalCount of
        Some n \<Rightarrow>
          if n > 0
          then ''Your Content Digest: '' @ show_nat n @ '' new ''
                 @ (if n = 1 then ''update'' else ''updates'')
          else ''Your Content Digest''
      | None \<Rightarrow> ''Your Content Digest'')"

text \<open>
  The component \<open>NewsletterEmail\<close>, called as a function: it builds the element of
  its properties, evaluating for every entry
  \<open>following.contents.length === 0 ? ... : following.contents.map(...)\<close>. An entry
  whose contents are not an array and whose \<open>length\<close> is not 0 has no \<open>map\<close> to call,
  which is a \<open>TypeError\<close>.
\<close>

definition entry_throws :: "FollowingContent \<Rightarrow> bool" where
  "entry_throws following =
     (length_prop (fc_contents following) \<noteq> Some 0 \<and> \<not> is_array (fc_contents following))"

definition NewsletterEmail ::
  "string \<Rightarrow> FollowingContent list \<Rightarrow> exn + string \<times> FollowingContent list" where
  "NewsletterEmail userEmail fs =
     (if list_ex entry_throws fs
      then Inl (ErrorObj ''following.contents.map is not a function'')
      else Inr (userEmail, fs))"

text \<open>render-email: \<open>render(NewsletterEmail({userEmail, followings}))\<close>.\<close>

definition renderNewsletterEmail ::
  "mail_env \<Rightarrow> string \<Rightarrow> FollowingContent list \<Rightarrow> exn + string" where
  "renderNewsletterEmail env userEmail fs =
     (case NewsletterEmail userEmail fs of
        Inl e \<Rightarrow> Inl e
      | Inr element \<Rightarrow> render env element)"

text \<open>The analytics record of a recipient, \<open>userPref\<close> being \<open>userPreferences[0]\<close>.\<close>

definition outcome_record ::
  "string \<Rightarrow> NewsletterPreferencesViewDTO list \<Rightarrow> FollowingContent list \<Rightarrow> status
     \<Rightarrow> string option \<Rightarrow> EmailAnalytics" where
  "outcome_record em userPreferences fs st err =
     (let userPref = (case userPreferences of [] \<Rightarrow> None | p # _ \<Rightarrow> Some p) in
      \<lparr> a_email = em,
        a_user_id = map_option user_id userPref,
        a_status = st,
        a_error_message = err,
        a_followings_count = length fs,
        a_total_contents_count = totalContents fs,
        a_platforms = uniq (map fc_platform fs),
        a_frequency = (case userPref of None \<Rightarrow> ''daily'' | Some p \<Rightarrow> or_default (frequency p) ''daily''),
        a_timezone = (case userPref of None \<Rightarrow> ''UTC'' | Some p \<Rightarrow> or_default (timezone p) ''UTC''),
        a_send_time = (case userPref of None \<Rightarrow> ''00:00'' | Some p \<Rightarrow> or_default (send_time p) ''00:00'') \<rparr>)"

text \<open>
  The body of one \<open>sendResults\<close> task. Everything that can throw sits in the \<open>try\<close>,
  so the task always fulfils: with \<open>None\<close> for success or with the error message.
  It yields the task's value, its analytics record, and the renderer and delivery
  calls it made.
\<close>

record send_step =
  s_email :: string
  s_error :: "string option"
  s_record :: EmailAnalytics
  s_rendered :: "(string \<times> FollowingContent list) list"
  s_mailed :: "(string \<times> string \<times> string) list"

definition send_one ::
  "mail_env \<Rightarrow> (string \<times> NewsletterPreferencesViewDTO list) list
     \<Rightarrow> string \<times> FollowingContent list \<Rightarrow> send_step" where
  "send_one env groupedByUser ef =
     (let em = fst ef; fs = snd ef;
          userPreferences = (case map_get groupedByUser em of None \<Rightarrow> [] | Some ps \<Rightarrow> ps)
      in case renderNewsletterEmail env em fs of
           Inl e \<Rightarrow>
             \<lparr> s_email = em, s_error = Some (error_message e),
               s_record = outcome_record em userPreferences fs Failed (Some (error_message e)),
               s_rendered = [(em, fs)], s_mailed = [] \<rparr>
         | Inr html \<Rightarrow>
             (let subject = subject_of (totalContents fs) in
              case ses_send env em subject html of
                Some e \<Rightarrow>
                  \<lparr> s_email = em, s_error = Some (error_message e),
                    s_record = outcome_record em userPreferences fs Failed (Some (error_message e)),
                    s_rendered = [(em, fs)], s_mailed = [(em, subject, html)] \<rparr>
              | None \<Rightarrow>
                  \<lparr> s_email = em, s_error = None,
                    s_record = outcome_record em userPreferences fs Sent None,
                    s_rendered = [(em, fs)], s_mailed = [(em, subject, html)] \<rparr>))"

text \<open>\<open>sendResults.forEach\<close>: the success counter and the error list.\<close>

definition count_successes :: "send_step list \<Rightarrow> nat" where
  "count_successes steps = length (filter (\<lambda>s. s_error s = None) steps)"

definition collect_errors :: "send_step list \<Rightarrow> (string \<times> string) list" where
  "collect_errors steps =
     concat (map (\<lambda>s. case s_error s of
                         None \<Rightarrow> []
                       | Some m \<Rightarrow> [(s_email s, or_default m ''Unknown error'')]) steps)"

definition quiet :: "nat \<Rightarrow> body \<Rightarrow> run_result" where
  "quiet code b =
     \<lparr> resp = \<lparr> statusCode = code, rbody = b \<rparr>, tracked = None, rendered = [], mailed = [] \<rparr>"

text \<open>
  The handler. The tasks of a fan-out run concurrently in the source; here their
  effects are listed in the order of the tasks.
\<close>

definition send_emails :: "mail_env \<Rightarrow> exn + run_result" where
  "send_emails env =
     (case select_all env of
        Inl e \<Rightarrow> Inr (quiet 500 (ErrorBody ''Failed to fetch newsletter preferences''))
      | Inr data \<Rightarrow>
          (case map_option (filter newsletter_enabled) data of
             None \<Rightarrow> Inr (quiet 200 (MessageBody ''No newsletters to send''))
           | Some [] \<Rightarrow> Inr (quiet 200 (MessageBody ''No newsletters to send''))
           | Some newsletterPreferences \<Rightarrow>
               (case filter_due env newsletterPreferences of
                  Inl e \<Rightarrow> Inl e
                | Inr (preferencesToSend, skipped) \<Rightarrow>
                    if preferencesToSend = []
                    then Inr (quiet 200 (MessageBody ''No newsletters scheduled for this time''))
                    else
                      (let groupedByUser = groupByUser preferencesToSend;
                           emailData = usersWithContents env groupedByUser
                       in if emailData = []
                          then Inr (quiet 200 (MessageBody ''No valid newsletters to send''))
                          else
                            (let steps = map (send_one env groupedByUser) emailData;
                                 analyticsData = skipped @ map s_record steps;
                                 errors = collect_errors steps
                             in Inr \<lparr> resp =
                                        \<lparr> statusCode = (if errors \<noteq> [] then 207 else 200),
                                          rbody = SummaryBody
                                            (''Processed '' @ show_nat (length emailData) @ '' newsletters'')
                                            (count_successes steps) (length errors)
                                            (if errors \<noteq> [] then Some errors else None) \<rparr>,
                                      tracked = (if analyticsData \<noteq> [] then Some analyticsData else None),
                                      rendered = concat (map s_rendered steps),
                                      mailed = concat (map s_mailed steps) \<rparr>)))))"

subsection \<open>Notions used to state the properties of a run\<close>

text \<open>A preference is due when the evaluator answers \<open>true\<close> for it.\<close>

definition is_due :: "mail_env \<Rightarrow> NewsletterPreferencesViewDTO \<Rightarrow> bool" where
  "is_due env pref =
     (shouldSendNewsletter (js env) (clock env) (frequency pref) (send_time pref) (timezone pref)
        = Inr True)"

text \<open>The evaluator answers at all (the clock knows the preference's time zone).\<close>

definition evaluates :: "mail_env \<Rightarrow> NewsletterPreferencesViewDTO \<Rightarrow> bool" where
  "evaluates env pref =
     (case shouldSendNewsletter (js env) (clock env) (frequency pref) (send_time pref)
             (timezone pref) of
        Inl e \<Rightarrow> False
      | Inr b \<Rightarrow> True)"

text \<open>The retrieval for one (platform, username) pair fails.\<close>

definition retrieval_fails :: "mail_env \<Rightarrow> NewsletterPreferencesViewDTO \<Rightarrow> bool" where
  "retrieval_fails env pref =
     (case getContentsByPlatformAndUsername env (platform pref) (username pref) of
        Inl e \<Rightarrow> True
      | Inr contents \<Rightarrow> False)"

text \<open>
  The delivery of a digest to a recipient fails: rendering it or handing it to the
  delivery service throws.
\<close>

definition send_fails :: "mail_env \<Rightarrow> string \<Rightarrow> FollowingContent list \<Rightarrow> bool" where
  "send_fails env em fs =
     (case renderNewsletterEmail env em fs of
        Inl e \<Rightarrow> True
      | Inr html \<Rightarrow> ses_send env em (subject_of (totalContents fs)) html \<noteq> None)"

text \<open>What the handler retrieves for a recipient out of the due preferences.\<close>

definition digest_for ::
  "mail_env \<Rightarrow> NewsletterPreferencesViewDTO list \<Rightarrow> string \<Rightarrow> FollowingContent list" where
  "digest_for env due em = map (fetch_following env) (filter (\<lambda>p. email p = em) due)"

section \<open>Read endpoints (fetch-followings and fetch-contents handlers)\<close>

record FollowingDocument =
  doc_fullName :: string
  doc_username :: string
  doc_profileUrl :: string
  doc_profilePictureUrl :: string
  platformName :: string
  parentUsername :: string

text \<open>A cached snapshot; \<open>fetchedAt\<close> is the date as the store serialises it.\<close>

record CachedFollowingsDTO =
  cf_followings :: "FollowingUser list"
  cf_fetchedAt :: string

record CachedContents =
  cc_contents :: "ContentItem list"
  cc_fetchedAt :: string

record FollowingFetcherStrategy =
  isUserExists :: "string \<Rightarrow> exn + bool"
  getFollowings :: "string \<Rightarrow> exn + FollowingUser list"

record ContentFetcherStrategy =
  fetchContent :: "string \<Rightarrow> string \<Rightarrow> exn + ContentItem list"

text \<open>A call that reached a platform strategy, with the platform it was resolved for.\<close>

datatype upstream_call =
  CallUserExists string string
| CallGetFollowings string string
| CallFetchContent string string string

text \<open>
  The two strategy factories are not part of the handlers' files: they are parameters
  (a platform the factory does not serve makes the call throw). So are the language
  runtime, the failures of the cache and of the search index, the index's notion of a
  document matching a free-text query, and the clock behind \<open>new Date()\<close>.
\<close>

record api_env =
  runtime :: js_runtime
  followingStrategy :: "string \<Rightarrow> exn + FollowingFetcherStrategy"
  contentStrategy :: "string \<Rightarrow> exn + ContentFetcherStrategy"
  redis_get_error :: "exn option"
  redis_set_error :: "exn option"
  index_upsert_error :: "exn option"
  index_search_error :: "exn option"
  query_matches :: "string \<Rightarrow> FollowingDocument \<Rightarrow> bool"
  now :: string

text \<open>
  The shared stores and the trace of upstream calls. A cache entry carries the expiry
  (in seconds) it was written with; expiry itself happens between requests.
\<close>

record world =
  followings_cache :: "string \<rightharpoonup> (CachedFollowingsDTO \<times> nat)"
  contents_cache :: "string \<rightharpoonup> (CachedContents \<times> nat)"
  search_index :: "(string \<times> FollowingDocument) list"
  calls :: "upstream_call list"

record event =
  pathParameters :: "(string \<rightharpoonup> string) option"
  queryStringParameters :: "(string \<rightharpoonup> string) option"

definition platform_enum :: "string list" where
  "platform_enum = [''MEDIUM'', ''X'', ''INSTAGRAM'']"

text \<open>
  \<open>schema.safeParseAsync(event.pathParameters)\<close> followed by the destructuring:
  the platform name and the username when the schema accepts, \<open>None\<close> when it rejects.
\<close>

definition parse_path :: "event \<Rightarrow> (string \<times> string) option" where
  "parse_path ev =
     (case pathParameters ev of
        None \<Rightarrow> None
      | Some params \<Rightarrow>
          (case params ''platformName'' of
             None \<Rightarrow> None
           | Some pn \<Rightarrow>
               if pn \<notin> set platform_enum then None
               else (case params ''username'' of
                       None \<Rightarrow> None
                     | Some un \<Rightarrow> Some (pn, un))))"

definition query_param :: "event \<Rightarrow> string \<Rightarrow> string option" where
  "query_param ev name =
     (case queryStringParameters ev of None \<Rightarrow> None | Some q \<Rightarrow> q name)"

definition is_space :: "char \<Rightarrow> bool" where
  "is_space c = (of_char c \<in> {9, 10, 11, 12, 13, 32 :: nat})"

definition is_ascii :: "char \<Rightarrow> bool" where
  "is_ascii c = (of_char c < (128 :: nat))"

text \<open>\<open>s.trim()\<close>.\<close>

definition js_trim :: "js_runtime \<Rightarrow> string \<Rightarrow> string" where
  "js_trim rt s =
     (if list_all is_ascii s then rev (dropWhile is_space (rev (dropWhile is_space s)))
      else trim_other rt s)"

definition FOLLOWINGS_KEY_PREFIX :: string where
  "FOLLOWINGS_KEY_PREFIX = ''followings:''"

definition followings_key :: "string \<Rightarrow> string \<Rightarrow> string" where
  "followings_key pn un = FOLLOWINGS_KEY_PREFIX @ pn @ '':'' @ un"

definition contents_key :: "string \<Rightarrow> string \<Rightarrow> string \<Rightarrow> string" where
  "contents_key pn un since = ''contents:'' @ pn @ '':'' @ un @ '':'' @ since"

definition day_seconds :: nat where
  "day_seconds = 24 * 60 * 60"

subsection \<open>The search index\<close>

text \<open>
  The index is a service outside the repository. Its contract, as the handler relies
  on it: \<open>upsert\<close> replaces the document with the same id or adds it; \<open>search\<close> answers
  with at most \<open>limit\<close> documents that pass every \<open>equals\<close> condition of the \<open>AND\<close> filter
  and match the query. The order of relevance is left out.
\<close>

definition doc_field :: "string \<Rightarrow> FollowingDocument \<Rightarrow> string option" where
  "doc_field name d =
     (if name = ''fullName'' then Some (doc_fullName d)
      else if name = ''username'' then Some (doc_username d)
      else if name = ''profileUrl'' then Some (doc_profileUrl d)
      else if name = ''profilePictureUrl'' then Some (doc_profilePictureUrl d)
      else if name = ''platformName'' then Some (platformName d)
      else if name = ''parentUsername'' then Some (parentUsername d)
      else None)"

definition passes_filter :: "(string \<times> string) list \<Rightarrow> FollowingDocument \<Rightarrow> bool" where
  "passes_filter conds d = list_all (\<lambda>c. doc_field (fst c) d = Some (snd c)) conds"

definition index_search ::
  "api_env \<Rightarrow> (string \<times> FollowingDocument) list \<Rightarrow> string \<Rightarrow> (string \<times> string) list \<Rightarrow> nat
     \<Rightarrow> FollowingDocument list" where
  "index_search env idx query conds limit =
     take limit (filter (\<lambda>d. passes_filter conds d \<and> query_matches env query d) (map snd idx))"

definition index_upsert ::
  "(string \<times> FollowingDocument) list \<Rightarrow> (string \<times> FollowingDocument) list
     \<Rightarrow> (string \<times> FollowingDocument) list" where
  "index_upsert idx documents = foldl (\<lambda>m d. map_set m (fst d) (snd d)) idx documents"

subsection \<open>fetch-followings\<close>

definition following_document :: "string \<Rightarrow> string \<Rightarrow> FollowingUser \<Rightarrow> string \<times> FollowingDocument" where
  "following_document pn un following =
     (pn @ '':'' @ un @ '':'' @ fu_username following,
      \<lparr> doc_fullName = fullName following,
        doc_username = fu_username following,
        doc_profileUrl = profileUrl following,
        doc_profilePictureUrl =
          (case profilePictureUrl following of None \<Rightarrow> [] | Some u \<Rightarrow> or_default u []),
        platformName = pn,
        parentUsername = un \<rparr>)"

definition storeFollowingsForSearch ::
  "api_env \<Rightarrow> string \<Rightarrow> string \<Rightarrow> FollowingUser list \<Rightarrow> world \<Rightarrow> exn option \<times> world" where
  "storeFollowingsForSearch env pn un fs w =
     (let documents = map (following_document pn un) fs in
      case index_upsert_error env of
        Some e \<Rightarrow> (Some e, w)
      | None \<Rightarrow> (None, w\<lparr> search_index := index_upsert (search_index w) documents \<rparr>))"

definition search_result :: "FollowingDocument \<Rightarrow> FollowingUser" where
  "search_result d =
     \<lparr> fullName = doc_fullName d,
       fu_username = doc_username d,
       profileUrl = doc_profileUrl d,
       profilePictureUrl =
         (if doc_profilePictureUrl d = [] then None else Some (doc_profilePictureUrl d)) \<rparr>"

definition followings_filter :: "string \<Rightarrow> string \<Rightarrow> (string \<times> string) list" where
  "followings_filter pn un = [(''platformName'', pn), (''parentUsername'', un)]"

definition searchFollowings ::
  "api_env \<Rightarrow> string \<Rightarrow> string \<Rightarrow> string \<Rightarrow> world \<Rightarrow> exn + FollowingUser list" where
  "searchFollowings env pn un searchQuery w =
     (case index_search_error env of
        Some e \<Rightarrow> Inl e
      | None \<Rightarrow>
          Inr (map search_result
                 (index_search env (search_index w) searchQuery (followings_filter pn un) 1000)))"

definition internal_error :: "exn \<Rightarrow> response" where
  "internal_error e = \<lparr> statusCode = 500, rbody = InternalErrorBody (error_message e) \<rparr>"

definition ok_followings :: "FollowingUser list \<Rightarrow> string \<Rightarrow> response" where
  "ok_followings fs fetchedAt = \<lparr> statusCode = 200, rbody = FollowingsBody fs fetchedAt \<rparr>"

text \<open>
  The live fetch shared by both branches, up to the index upsert: the upstream listing,
  the cache write with its 24 h expiry, the index upsert. All of it sits inside the
  handler's \<open>try\<close>, so the first failure is what the \<open>catch\<close> receives.
\<close>

definition fetch_and_store ::
  "api_env \<Rightarrow> FollowingFetcherStrategy \<Rightarrow> string \<Rightarrow> string \<Rightarrow> world
     \<Rightarrow> (exn + FollowingUser list) \<times> world" where
  "fetch_and_store env strat pn un w =
     (let w1 = w\<lparr> calls := calls w @ [CallGetFollowings pn un] \<rparr> in
      case getFollowings strat un of
        Inl e \<Rightarrow> (Inl e, w1)
      | Inr fs \<Rightarrow>
          (case redis_set_error env of
             Some e \<Rightarrow> (Inl e, w1)
           | None \<Rightarrow>
               (let w2 = w1\<lparr> followings_cache :=
                              (followings_cache w1)(followings_key pn un \<mapsto>
                                 (\<lparr> cf_followings = fs, cf_fetchedAt = now env \<rparr>, day_seconds)) \<rparr>
                in case storeFollowingsForSearch env pn un fs w2 of
                     (Some e, w3) \<Rightarrow> (Inl e, w3)
                   | (None, w3) \<Rightarrow> (Inr fs, w3))))"

definition live_search ::
  "api_env \<Rightarrow> FollowingFetcherStrategy \<Rightarrow> string \<Rightarrow> string \<Rightarrow> string \<Rightarrow> world
     \<Rightarrow> (exn + response) \<times> world" where
  "live_search env strat pn un searchQuery w =
     (case fetch_and_store env strat pn un w of
        (Inl e, w') \<Rightarrow> (Inr (internal_error e), w')
      | (Inr fs, w') \<Rightarrow>
          (case searchFollowings env pn un searchQuery w' of
             Inl e \<Rightarrow> (Inr (internal_error e), w')
           | Inr searchResults \<Rightarrow> (Inr (ok_followings searchResults (now env)), w')))"

definition live_plain ::
  "api_env \<Rightarrow> FollowingFetcherStrategy \<Rightarrow> string \<Rightarrow> string \<Rightarrow> world
     \<Rightarrow> (exn + response) \<times> world" where
  "live_plain env strat pn un w =
     (case fetch_and_store env strat pn un w of
        (Inl e, w') \<Rightarrow> (Inr (internal_error e), w')
      | (Inr fs, w') \<Rightarrow> (Inr (ok_followings fs (now env)), w'))"

text \<open>\<open>redis.get\<close> of a followings snapshot: it throws, or gives the entry or \<open>null\<close>.\<close>

definition redis_get_followings :: "api_env \<Rightarrow> world \<Rightarrow> string \<Rightarrow> exn + CachedFollowingsDTO option" where
  "redis_get_followings env w k =
     (case redis_get_error env of
        Some e \<Rightarrow> Inl e
      | None \<Rightarrow> Inr (map_option fst (followings_cache w k)))"

text \<open>The branch taken when a search query is given (\<open>if (searchQuery)\<close>).\<close>

definition search_branch ::
  "api_env \<Rightarrow> FollowingFetcherStrategy \<Rightarrow> string \<Rightarrow> string \<Rightarrow> string \<Rightarrow> world
     \<Rightarrow> (exn + response) \<times> world" where
  "search_branch env strat pn un searchQuery w =
     (case redis_get_followings env w (followings_key pn un) of
        Inl e \<Rightarrow> (Inl e, w)
      | Inr None \<Rightarrow> live_search env strat pn un searchQuery w
      | Inr (Some cachedFollowings) \<Rightarrow>
          (case searchFollowings env pn un searchQuery w of
             Inl e \<Rightarrow> (Inl e, w)
           | Inr searchResults \<Rightarrow>
               if searchResults \<noteq> [] \<or> cf_fetchedAt cachedFollowings \<noteq> []
               then (Inr (ok_followings searchResults (cf_fetchedAt cachedFollowings)), w)
               else live_search env strat pn un searchQuery w))"

text \<open>The rest of the handler, reached without a search query.\<close>

definition plain_branch ::
  "api_env \<Rightarrow> FollowingFetcherStrategy \<Rightarrow> string \<Rightarrow> string \<Rightarrow> world
     \<Rightarrow> (exn + response) \<times> world" where
  "plain_branch env strat pn un w =
     (case redis_get_followings env w (followings_key pn un) of
        Inl e \<Rightarrow> (Inl e, w)
      | Inr (Some cachedFollowings) \<Rightarrow>
          (Inr (ok_followings (cf_followings cachedFollowings) (cf_fetchedAt cachedFollowings)), w)
      | Inr None \<Rightarrow> live_plain env strat pn un w)"

text \<open>
  \<open>event.queryStringParameters?.search?.trim()\<close>, as the condition \<open>if (searchQuery)\<close>
  sees it: the trimmed query when it is present and not empty.
\<close>

definition search_query :: "js_runtime \<Rightarrow> event \<Rightarrow> string option" where
  "search_query rt ev =
     (case map_option (js_trim rt) (query_param ev ''search'') of
        None \<Rightarrow> None
      | Some q \<Rightarrow> if q = [] then None else Some q)"

definition fetch_followings :: "api_env \<Rightarrow> event \<Rightarrow> world \<Rightarrow> (exn + response) \<times> world" where
  "fetch_followings env ev w =
     (case parse_path ev of
        None \<Rightarrow> (Inr \<lparr> statusCode = 400, rbody = ValidationErrorBody \<rparr>, w)
      | Some (pn, un) \<Rightarrow>
          (case followingStrategy env pn of
             Inl e \<Rightarrow> (Inl e, w)
           | Inr fetchingStrategy \<Rightarrow>
               (let w1 = w\<lparr> calls := calls w @ [CallUserExists pn un] \<rparr> in
                case isUserExists fetchingStrategy un of
                  Inl e \<Rightarrow> (Inl e, w1)
                | Inr userExists \<Rightarrow>
                    if \<not> userExists
                    then (Inr \<lparr> statusCode = 404, rbody = ErrorBody ''user not found'' \<rparr>, w1)
                    else (case search_query (runtime env) ev of
                            Some searchQuery \<Rightarrow>
                              search_branch env fetchingStrategy pn un searchQuery w1
                          | None \<Rightarrow> plain_branch env fetchingStrategy pn un w1))))"

subsection \<open>fetch-contents\<close>

definition since_of :: "event \<Rightarrow> string" where
  "since_of ev = (case query_param ev ''since'' of None \<Rightarrow> ''all'' | Some s \<Rightarrow> or_default s ''all'')"

definition fetch_contents :: "api_env \<Rightarrow> event \<Rightarrow> world \<Rightarrow> (exn + response) \<times> world" where
  "fetch_contents env ev w =
     (case parse_path ev of
        None \<Rightarrow> (Inr \<lparr> statusCode = 400, rbody = ValidationErrorBody \<rparr>, w)
      | Some (pn, un) \<Rightarrow>
          (let since = since_of ev in
           case redis_get_error env of
             Some e \<Rightarrow> (Inl e, w)
           | None \<Rightarrow>
               (case contents_cache w (contents_key pn un since) of
                  Some (cachedContents, ttl) \<Rightarrow>
                    (Inr \<lparr> statusCode = 200,
                           rbody = ContentsBody (cc_contents cachedContents)
                                     (cc_fetchedAt cachedContents) \<rparr>, w)
                | None \<Rightarrow>
                    (case contentStrategy env pn of
                       Inl e \<Rightarrow> (Inl e, w)
                     | Inr fetchingStrategy \<Rightarrow>
                         (let w1 = w\<lparr> calls := calls w @ [CallFetchContent pn un since] \<rparr> in
                          case fetchContent fetchingStrategy un since of
                            Inl e \<Rightarrow> (Inl e, w1)
                          | Inr contents \<Rightarrow>
                              (case redis_set_error env of
                                 Some e \<Rightarrow> (Inl e, w1)
                               | None \<Rightarrow>
                                   (Inr \<lparr> statusCode = 200,
                                          rbody = ContentsBody contents (now env) \<rparr>,
                                    w1\<lparr> contents_cache :=
                                          (contents_cache w1)(contents_key pn un since \<mapsto>
                                             (\<lparr> cc_contents = contents, cc_fetchedAt = now env \<rparr>,
                                              day_seconds)) \<rparr>)))))))"

section \<open>Concrete runs\<close>

text \<open>
  A runtime that answers \<open>NaN\<close> wherever the model leaves a numeric conversion open,
  and trims nothing where it leaves \<open>trim\<close> open.
\<close>

definition js0 :: js_runtime where
  "js0 = \<lparr> Number_other = (\<lambda>s. NaN), parseInt_other = (\<lambda>s. NaN),
           trim_other = (\<lambda>s. s) \<rparr>"

text \<open>
  Three readings of the clock, the same in every time zone: Monday the 8th, Tuesday
  the 9th and Thursday the 1st, each at nine in the morning.
\<close>

definition monday_9 :: intl where
  "monday_9 = (\<lambda>tz. Inr \<lparr> hourText = ''09'', weekdayText = ''Mon'', dayText = ''8'' \<rparr>)"

definition tuesday_9 :: intl where
  "tuesday_9 = (\<lambda>tz. Inr \<lparr> hourText = ''09'', weekdayText = ''Tue'', dayText = ''9'' \<rparr>)"

definition first_9 :: intl where
  "first_9 = (\<lambda>tz. Inr \<lparr> hourText = ''09'', weekdayText = ''Thu'', dayText = ''1'' \<rparr>)"

definition a_pref ::
  "string \<Rightarrow> string \<Rightarrow> string \<Rightarrow> string \<Rightarrow> string \<Rightarrow> string \<Rightarrow> NewsletterPreferencesViewDTO" where
  "a_pref em un pf fr st tz =
     \<lparr> newsletter_preference_id = ''np-'' @ un, profile_id = ''pr-'' @ em, user_id = ''u-'' @ em,
       email = em, username = un, timezone = tz, language = ''en'', platform = pf,
       followings = [], newsletter_enabled = True, frequency = fr, send_time = st \<rparr>"

definition ada_daily :: NewsletterPreferencesViewDTO where
  "ada_daily = a_pref ''ada@x.org'' ''writer1'' ''medium'' ''daily'' ''09:00'' ''UTC''"

definition ada_weekly :: NewsletterPreferencesViewDTO where
  "ada_weekly = a_pref ''ada@x.org'' ''writer2'' ''x'' ''weekly'' ''09:30'' ''Europe/London''"

definition bob_daily :: NewsletterPreferencesViewDTO where
  "bob_daily = a_pref ''bob@x.org'' ''writer1'' ''medium'' ''daily'' ''09:00'' ''UTC''"

definition cy_monthly :: NewsletterPreferencesViewDTO where
  "cy_monthly = a_pref ''cy@x.org'' ''writer1'' ''medium'' ''monthly'' ''09:00'' ''UTC''"

definition dan_daily :: NewsletterPreferencesViewDTO where
  "dan_daily = a_pref ''dan@x.org'' ''writer2'' ''x'' ''daily'' ''09:00'' ''UTC''"

definition an_item :: ContentItem where
  "an_item = \<lparr> title = ''A post'', url = ''https://medium.com/p/1'', publishedAt = None,
                imageUrl = None, description = None \<rparr>"

text \<open>
  A Monday run over five enabled preferences of four recipients: the contents of
  \<open>writer1\<close> are retrieved as an array, the retrieval for \<open>writer2\<close> fails, and the
  delivery service rejects the message to \<open>bob@x.org\<close>.
\<close>

definition monday_rows :: "NewsletterPreferencesViewDTO list" where
  "monday_rows = [ada_daily, cy_monthly, bob_daily, ada_weekly, dan_daily]"

definition env_monday :: mail_env where
  "env_monday =
     \<lparr> js = js0, clock = monday_9,
       select_all = Inr (Some monday_rows),
       http_get = (\<lambda>pf un since.
          if un = ''writer1'' then Response True (Inr (Truthy (ContentArray [an_item])))
          else FetchThrows (ErrorObj ''timeout'')),
       render = (\<lambda>element. Inr ''<html/>''),
       ses_send = (\<lambda>em subject html.
          if em = ''bob@x.org'' then Some (ErrorObj ''rejected'') else None) \<rparr>"


text \<open>A Tuesday run over a single enabled weekly preference.\<close>

definition env_tuesday :: mail_env where
  "env_tuesday =
     \<lparr> js = js0, clock = tuesday_9,
       select_all = Inr (Some [ada_weekly]),
       http_get = (\<lambda>pf un since. Response True (Inr (Truthy (ContentArray [an_item])))),
       render = (\<lambda>element. Inr ''<html/>''),
       ses_send = (\<lambda>em subject html. None) \<rparr>"

text \<open>
  Requests for the followings and the contents of \<open>alice\<close> on Medium: plain, with a
  search query, and with a \<open>since\<close> value outside the documented ones.
\<close>

definition alice_path :: "string \<rightharpoonup> string" where
  "alice_path = [''platformName'' \<mapsto> ''MEDIUM'', ''username'' \<mapsto> ''alice'']"

definition ev_plain :: event where
  "ev_plain = \<lparr> pathParameters = Some alice_path, queryStringParameters = None \<rparr>"

definition ev_search :: event where
  "ev_search = \<lparr> pathParameters = Some alice_path,
                  queryStringParameters = Some [''search'' \<mapsto> '' gra ''] \<rparr>"

definition ev_since :: event where
  "ev_since = \<lparr> pathParameters = Some alice_path,
                 queryStringParameters = Some [''since'' \<mapsto> ''fortnight''] \<rparr>"

definition ev_bad_platform :: event where
  "ev_bad_platform =
     \<lparr> pathParameters = Some [''platformName'' \<mapsto> ''medium'', ''username'' \<mapsto> ''alice''],
       queryStringParameters = Some [''since'' \<mapsto> ''today''] \<rparr>"

definition grace :: FollowingUser where
  "grace = \<lparr> fullName = ''Grace Hopper'', fu_username = ''grace'',
              profileUrl = ''https://medium.com/@grace'', profilePictureUrl = None \<rparr>"

definition edsger :: FollowingUser where
  "edsger = \<lparr> fullName = ''Edsger Dijkstra'', fu_username = ''edsger'',
               profileUrl = ''https://medium.com/@edsger'', profilePictureUrl = None \<rparr>"

text \<open>Strategies: one that finds the user and lists two followings, one that does not find the user.\<close>

definition strategy_found :: FollowingFetcherStrategy where
  "strategy_found = \<lparr> isUserExists = (\<lambda>un. Inr True), getFollowings = (\<lambda>un. Inr [grace, edsger]) \<rparr>"

definition strategy_gone :: FollowingFetcherStrategy where
  "strategy_gone = \<lparr> isUserExists = (\<lambda>un. Inr False), getFollowings = (\<lambda>un. Inr []) \<rparr>"

definition content_strategy :: ContentFetcherStrategy where
  "content_strategy = \<lparr> fetchContent = (\<lambda>un since. Inr [an_item]) \<rparr>"

definition api_ok :: api_env where
  "api_ok =
     \<lparr> runtime = js0,
       followingStrategy = (\<lambda>pn. Inr strategy_found),
       contentStrategy = (\<lambda>pn. Inr content_strategy),
       redis_get_error = None, redis_set_error = None,
       index_upsert_error = None, index_search_error = None,
       query_matches = (\<lambda>q d. take (length q) (doc_username d) = q),
       now = ''2024-01-08T09:00:00.000Z'' \<rparr>"

definition api_gone :: api_env where
  "api_gone = api_ok\<lparr> followingStrategy := (\<lambda>pn. Inr strategy_gone) \<rparr>"

definition api_set_fails :: api_env where
  "api_set_fails = api_ok\<lparr> redis_set_error := Some (ErrorObj ''redis unavailable'') \<rparr>"

definition api_upsert_fails :: api_env where
  "api_upsert_fails = api_ok\<lparr> index_upsert_error := Some (ErrorObj ''index unavailable'') \<rparr>"

text \<open>
  Stores: empty ones, and ones that hold yesterday's snapshots for \<open>alice\<close> together
  with index documents of hers and of another parent user.
\<close>

definition world_empty :: world where
  "world_empty = \<lparr> followings_cache = Map.empty, contents_cache = Map.empty,
                    search_index = [], calls = [] \<rparr>"

definition world_cached :: world where
  "world_cached =
     \<lparr> followings_cache =
         [''followings:MEDIUM:alice'' \<mapsto>
            (\<lparr> cf_followings = [grace], cf_fetchedAt = ''2024-01-07T08:00:00.000Z'' \<rparr>, 86400)],
       contents_cache =
         [''contents:MEDIUM:alice:all'' \<mapsto>
            (\<lparr> cc_contents = [an_item], cc_fetchedAt = ''2024-01-07T08:00:00.000Z'' \<rparr>, 86400)],
       search_index =
         [following_document ''MEDIUM'' ''alice'' grace,
          following_document ''MEDIUM'' ''carol'' grace,
          following_document ''X'' ''alice'' grace,
          following_document ''MEDIUM'' ''alice'' edsger],
       calls = [] \<rparr>"

section \<open>Properties of the schedule evaluator\<close>

lemma sendHour_0900: "sendHour_of rt ''09:00'' = Num 9"
  by (simp add: sendHour_of_def js_Number_def short_digits_def is_digit_def dec_val_def
      digit_val_def)

lemma sendHour_0930: "sendHour_of rt ''09:30'' = Num 9"
  by (simp add: sendHour_of_def js_Number_def short_digits_def is_digit_def dec_val_def
      digit_val_def)

lemma parseInt_09: "js_parseInt rt ''09'' = Num 9"
  by (simp add: js_parseInt_def short_digits_def is_digit_def dec_val_def digit_val_def)

lemma parseInt_1: "js_parseInt rt ''1'' = Num 1"
  by (simp add: js_parseInt_def short_digits_def is_digit_def dec_val_def digit_val_def)

lemma parseInt_8: "js_parseInt rt ''8'' = Num 8"
  by (simp add: js_parseInt_def short_digits_def is_digit_def dec_val_def digit_val_def)

lemma parseInt_9: "js_parseInt rt ''9'' = Num 9"
  by (simp add: js_parseInt_def short_digits_def is_digit_def dec_val_def digit_val_def)

lemma not_strict_neq_iff: "\<not> strict_neq a b \<longleftrightarrow> (\<exists>h. a = Num h \<and> b = Num h)"
  by (cases a; cases b) auto

lemma dayMap_monday: "map_of dayMap w = Some 1 \<longleftrightarrow> w = ''Mon''"
  by (simp add: dayMap_def)

lemma is_one_iff: "is_one x \<longleftrightarrow> x = Num 1"
  by (cases x) auto

text \<open>
  C6. In a time zone the clock knows, the evaluator applied to \<open>weekly\<close> and
  \<open>"09:00"\<close> answers, and its answer is \<open>true\<close> exactly when the local hour is 9 and
  the local weekday is Monday. In a zone the clock rejects there is no local time: the
  evaluator throws what the clock throws and so is not due either.
\<close>

theorem weekly_0900_due_iff_hour_9_and_monday:
  "(clk tz = Inr t \<longrightarrow>
      shouldSendNewsletter rt clk ''weekly'' ''09:00'' tz
        = Inr (js_parseInt rt (hourText t) = Num 9 \<and> weekdayText t = ''Mon''))
   \<and> (clk tz = Inl e \<longrightarrow> shouldSendNewsletter rt clk ''weekly'' ''09:00'' tz = Inl e)"
proof (intro conjI impI)
  assume c: "clk tz = Inr t"
  have hour: "getCurrentHourInTimezone rt clk tz = Inr (js_parseInt rt (hourText t))"
    using c by (simp add: getCurrentHourInTimezone_def)
  have day: "getCurrentDayInTimezone clk tz = Inr (map_of dayMap (weekdayText t))"
    using c by (simp add: getCurrentDayInTimezone_def)
  have neq: "strict_neq (js_parseInt rt (hourText t)) (Num 9)
               \<longleftrightarrow> js_parseInt rt (hourText t) \<noteq> Num 9"
    using not_strict_neq_iff [of "js_parseInt rt (hourText t)" "Num 9"] by auto
  show "shouldSendNewsletter rt clk ''weekly'' ''09:00'' tz
          = Inr (js_parseInt rt (hourText t) = Num 9 \<and> weekdayText t = ''Mon'')"
    using dayMap_monday [of "weekdayText t"]
    by (simp add: shouldSendNewsletter_def sendHour_0900 hour day neq)
next
  assume "clk tz = Inl e"
  then show "shouldSendNewsletter rt clk ''weekly'' ''09:00'' tz = Inl e"
    by (simp add: shouldSendNewsletter_def getCurrentHourInTimezone_def)
qed

text \<open>Monday 09:00 local is due, Tuesday 09:00 local is not.\<close>

theorem weekly_0900_monday_due_tuesday_not:
  "shouldSendNewsletter js0 monday_9 ''weekly'' ''09:00'' ''Europe/Istanbul'' = Inr True
   \<and> shouldSendNewsletter js0 tuesday_9 ''weekly'' ''09:00'' ''Europe/Istanbul'' = Inr False"
proof -
  have mon: "monday_9 ''Europe/Istanbul''
               = Inr \<lparr> hourText = ''09'', weekdayText = ''Mon'', dayText = ''8'' \<rparr>"
    by (simp add: monday_9_def)
  have tue: "tuesday_9 ''Europe/Istanbul''
               = Inr \<lparr> hourText = ''09'', weekdayText = ''Tue'', dayText = ''9'' \<rparr>"
    by (simp add: tuesday_9_def)
  show ?thesis
    using weekly_0900_due_iff_hour_9_and_monday
            [where clk = monday_9 and tz = "''Europe/Istanbul''" and rt = js0
               and t = "\<lparr> hourText = ''09'', weekdayText = ''Mon'', dayText = ''8'' \<rparr>"]
          weekly_0900_due_iff_hour_9_and_monday
            [where clk = tuesday_9 and tz = "''Europe/Istanbul''" and rt = js0
               and t = "\<lparr> hourText = ''09'', weekdayText = ''Tue'', dayText = ''9'' \<rparr>"]
          mon tue
    by (simp add: parseInt_09)
qed

text \<open>
  C7. In a time zone the clock knows, the evaluator applied to \<open>monthly\<close> answers
  \<open>true\<close> exactly when the local hour equals the hour of \<open>sendTime\<close> and the local
  day of the month is 1, for every \<open>sendTime\<close>; in a zone the clock rejects it throws
  what the clock throws; and for a frequency other than \<open>daily\<close>, \<open>weekly\<close> and
  \<open>monthly\<close> it never answers \<open>true\<close>, whatever the time zone, the clock and
  \<open>sendTime\<close>.
\<close>

theorem monthly_due_iff_first_and_other_frequency_never_due:
  "(clk tz = Inr t \<longrightarrow>
      shouldSendNewsletter rt clk ''monthly'' sendTime tz
        = Inr ((\<exists>h. js_parseInt rt (hourText t) = Num h \<and> sendHour_of rt sendTime = Num h)
               \<and> js_parseInt rt (dayText t) = Num 1))
   \<and> (clk tz = Inl e \<longrightarrow> shouldSendNewsletter rt clk ''monthly'' sendTime tz = Inl e)
   \<and> (freq \<notin> {''daily'', ''weekly'', ''monthly''} \<longrightarrow>
        shouldSendNewsletter rt clk freq sendTime tz \<noteq> Inr True)"
proof (intro conjI impI)
  assume c: "clk tz = Inr t"
  have hour: "getCurrentHourInTimezone rt clk tz = Inr (js_parseInt rt (hourText t))"
    using c by (simp add: getCurrentHourInTimezone_def)
  have day: "getCurrentDayOfMonthInTimezone rt clk tz = Inr (js_parseInt rt (dayText t))"
    using c by (simp add: getCurrentDayOfMonthInTimezone_def)
  show "shouldSendNewsletter rt clk ''monthly'' sendTime tz
        = Inr ((\<exists>h. js_parseInt rt (hourText t) = Num h \<and> sendHour_of rt sendTime = Num h)
               \<and> js_parseInt rt (dayText t) = Num 1)"
    using not_strict_neq_iff [of "js_parseInt rt (hourText t)" "sendHour_of rt sendTime"]
    by (auto simp add: shouldSendNewsletter_def hour day is_one_iff Let_def)
next
  assume "clk tz = Inl e"
  then show "shouldSendNewsletter rt clk ''monthly'' sendTime tz = Inl e"
    by (simp add: shouldSendNewsletter_def getCurrentHourInTimezone_def)
next
  assume "freq \<notin> {''daily'', ''weekly'', ''monthly''}"
  then show "shouldSendNewsletter rt clk freq sendTime tz \<noteq> Inr True"
    by (auto simp add: shouldSendNewsletter_def Let_def split: sum.splits)
qed

text \<open>
  The first of the month at nine is due for \<open>monthly\<close>, the 8th is not, and an unknown
  frequency is not due even then.
\<close>

theorem monthly_first_due_eighth_not_yearly_never:
  "shouldSendNewsletter js0 first_9 ''monthly'' ''09:30'' ''UTC'' = Inr True
   \<and> shouldSendNewsletter js0 monday_9 ''monthly'' ''09:30'' ''UTC'' = Inr False
   \<and> shouldSendNewsletter js0 first_9 ''yearly'' ''09:30'' ''UTC'' \<noteq> Inr True"
proof -
  have fst: "first_9 ''UTC'' = Inr \<lparr> hourText = ''09'', weekdayText = ''Thu'', dayText = ''1'' \<rparr>"
    by (simp add: first_9_def)
  have mon: "monday_9 ''UTC'' = Inr \<lparr> hourText = ''09'', weekdayText = ''Mon'', dayText = ''8'' \<rparr>"
    by (simp add: monday_9_def)
  have other: "''yearly'' \<notin> {''daily'', ''weekly'', ''monthly''}"
    by simp
  show ?thesis
    using monthly_due_iff_first_and_other_frequency_never_due
            [where clk = first_9 and tz = "''UTC''" and rt = js0 and sendTime = "''09:30''"
               and freq = "''yearly''"
               and t = "\<lparr> hourText = ''09'', weekdayText = ''Thu'', dayText = ''1'' \<rparr>"]
          monthly_due_iff_first_and_other_frequency_never_due
            [where clk = monday_9 and tz = "''UTC''" and rt = js0 and sendTime = "''09:30''"
               and freq = "''yearly''"
               and t = "\<lparr> hourText = ''09'', weekdayText = ''Mon'', dayText = ''8'' \<rparr>"]
          fst mon other
    by (simp add: parseInt_09 parseInt_1 parseInt_8 sendHour_0930)
qed

section \<open>Properties of the scheduled batch\<close>

lemma map_get_map_set: "map_get (map_set m k v) k' = (if k' = k then Some v else map_get m k')"
  by (induction m) auto

lemma keys_map_set:
  "map fst (map_set m k v) = (if k \<in> set (map fst m) then map fst m else map fst m @ [k])"
  by (induction m) force+

lemma map_get_None_iff: "map_get m k = None \<longleftrightarrow> k \<notin> set (map fst m)"
  by (induction m) (force split: if_splits)+

lemma set_uniq: "set (uniq xs) = set xs"
  by (induction xs) auto

lemma distinct_uniq: "distinct (uniq xs)"
  by (induction xs) (auto simp: set_uniq)

lemma uniq_snoc: "uniq (xs @ [x]) = (if x \<in> set xs then uniq xs else uniq xs @ [x])"
  by (induction xs) (auto simp: set_uniq)

lemma length_uniq: "length (uniq xs) = card (set xs)"
  using distinct_card [OF distinct_uniq, of xs] by (simp add: set_uniq)

lemma groupByUser_snoc: "groupByUser (ps @ [p]) = group_step (groupByUser ps) p"
  by (simp add: groupByUser_def)

lemma groupByUser_keys: "map fst (groupByUser ps) = uniq (map email ps)"
proof (induction ps rule: rev_induct)
  case Nil
  show ?case by (simp add: groupByUser_def)
next
  case (snoc p ps)
  then show ?case
    by (simp add: groupByUser_snoc group_step_def keys_map_set uniq_snoc set_uniq)
qed

lemma groupByUser_get:
  "map_get (groupByUser ps) e =
     (if e \<in> email ` set ps then Some (filter (\<lambda>p. email p = e) ps) else None)"
proof (induction ps arbitrary: e rule: rev_induct)
  case Nil
  show ?case by (simp add: groupByUser_def)
next
  case (snoc p ps)
  have absent: "email p \<notin> email ` set ps \<Longrightarrow> filter (\<lambda>q. email q = email p) ps = []"
    unfolding filter_empty_conv by (metis image_eqI)
  show ?case
  proof (cases "e = email p")
    case True
    then show ?thesis
      using absent by (simp add: groupByUser_snoc group_step_def map_get_map_set snoc.IH)
  next
    case False
    then show ?thesis
      by (simp add: groupByUser_snoc group_step_def map_get_map_set snoc.IH)
  qed
qed

lemma map_get_entry:
  "distinct (map fst m) \<Longrightarrow> (k, v) \<in> set m \<Longrightarrow> map_get m k = Some v"
  by (induction m) (auto simp: rev_image_eqI)

lemma groupByUser_entries:
  "groupByUser ps = map (\<lambda>e. (e, filter (\<lambda>p. email p = e) ps)) (uniq (map email ps))"
proof -
  have d: "distinct (map fst (groupByUser ps))"
    by (simp add: groupByUser_keys distinct_uniq)
  have "\<forall>kv \<in> set (groupByUser ps). snd kv = filter (\<lambda>p. email p = fst kv) ps"
  proof
    fix kv assume kv: "kv \<in> set (groupByUser ps)"
    then have "map_get (groupByUser ps) (fst kv) = Some (snd kv)"
      using map_get_entry [OF d, of "fst kv" "snd kv"] by simp
    then show "snd kv = filter (\<lambda>p. email p = fst kv) ps"
      by (simp add: groupByUser_get split: if_splits)
  qed
  then have "groupByUser ps = map (\<lambda>kv. (fst kv, filter (\<lambda>p. email p = fst kv) ps)) (groupByUser ps)"
    by (intro map_idI [symmetric]) auto
  also have "\<dots> = map (\<lambda>e. (e, filter (\<lambda>p. email p = e) ps)) (map fst (groupByUser ps))"
    by (simp add: comp_def)
  finally show ?thesis by (simp add: groupByUser_keys)
qed


lemma filter_due_total:
  "\<forall>p \<in> set ps. evaluates env p \<Longrightarrow>
   filter_due env ps
     = Inr (filter (is_due env) ps, map skipped_record (filter (\<lambda>p. \<not> is_due env p) ps))"
proof (induction ps)
  case Nil
  show ?case by simp
next
  case (Cons p ps)
  from Cons.prems obtain b where
    b: "shouldSendNewsletter (js env) (clock env) (frequency p) (send_time p) (timezone p) = Inr b"
    by (auto simp: evaluates_def split: sum.splits)
  have rest: "filter_due env ps
     = Inr (filter (is_due env) ps, map skipped_record (filter (\<lambda>p. \<not> is_due env p) ps))"
    using Cons by simp
  have dp: "is_due env p = b"
    using b by (simp add: is_due_def)
  show ?case
    by (simp add: b rest dp)
qed

lemma usersWithContents_grouped:
  "usersWithContents env (groupByUser due)
     = map (\<lambda>e. (e, digest_for env due e)) (uniq (map email due))"
  by (simp add: usersWithContents_def groupByUser_entries [of due] digest_for_def comp_def)

lemma uniq_Nil_iff: "uniq xs = [] \<longleftrightarrow> xs = []"
  by (cases xs) auto

lemma send_emails_run:
  assumes rows: "select_all env = Inr (Some rows)"
    and evals: "\<forall>p \<in> set (filter newsletter_enabled rows). evaluates env p"
    and due: "due = filter (is_due env) (filter newsletter_enabled rows)"
    and some: "due \<noteq> []"
    and steps: "steps = map (\<lambda>e. send_one env (groupByUser due) (e, digest_for env due e))
                          (uniq (map email due))"
    and errs: "errors = collect_errors steps"
  shows "send_emails env =
     Inr \<lparr> resp = \<lparr> statusCode = (if errors \<noteq> [] then 207 else 200),
                     rbody = SummaryBody
                       (''Processed '' @ show_nat (length steps) @ '' newsletters'')
                       (count_successes steps) (length errors)
                       (if errors \<noteq> [] then Some errors else None) \<rparr>,
            tracked = Some (map skipped_record
                              (filter (\<lambda>p. \<not> is_due env p) (filter newsletter_enabled rows))
                            @ map s_record steps),
            rendered = concat (map s_rendered steps),
            mailed = concat (map s_mailed steps) \<rparr>"
proof -
  obtain p ps where en: "filter newsletter_enabled rows = p # ps"
    using some due by (cases "filter newsletter_enabled rows") auto
  have fd: "filter_due env (p # ps)
     = Inr (due, map skipped_record (filter (\<lambda>p. \<not> is_due env p) (p # ps)))"
    using filter_due_total [of "p # ps" env] evals en due by simp
  have ed: "usersWithContents env (groupByUser due) \<noteq> []"
    using some by (simp add: usersWithContents_grouped uniq_Nil_iff)
  have st: "map (send_one env (groupByUser due)) (usersWithContents env (groupByUser due)) = steps"
    by (simp add: usersWithContents_grouped steps comp_def)
  have len: "length (usersWithContents env (groupByUser due)) = length steps"
    by (simp add: usersWithContents_grouped steps)
  have ne: "steps \<noteq> []"
    using some by (simp add: steps uniq_Nil_iff)
  show ?thesis
    unfolding send_emails_def rows
    by (simp add: en fd some ed st len ne errs Let_def del: filter_due.simps filter.simps)
qed


lemma send_one_error: "s_error (send_one env g (e, fs)) = None \<longleftrightarrow> \<not> send_fails env e fs"
  by (auto simp: send_one_def send_fails_def Let_def split: sum.splits option.splits)

lemma send_one_failed:
  "(\<exists>m. s_error (send_one env g (e, fs)) = Some m) \<longleftrightarrow> send_fails env e fs"
  using send_one_error [of env g e fs] by auto

lemma send_one_email: "s_email (send_one env g (e, fs)) = e"
  by (simp add: send_one_def Let_def split: sum.splits option.splits)

lemma send_one_rendered: "s_rendered (send_one env g (e, fs)) = [(e, fs)]"
  by (simp add: send_one_def Let_def split: sum.splits option.splits)

lemma send_one_mailed:
  "s_mailed (send_one env g (e, fs)) =
     (case renderNewsletterEmail env e fs of
        Inl ex \<Rightarrow> []
      | Inr html \<Rightarrow> [(e, subject_of (totalContents fs), html)])"
  by (simp add: send_one_def Let_def split: sum.splits option.splits)

lemma send_one_record:
  "\<exists>err. s_record (send_one env g (e, fs)) =
     outcome_record e (case map_get g e of None \<Rightarrow> [] | Some ps \<Rightarrow> ps) fs
       (if send_fails env e fs then Failed else Sent) err"
  by (auto simp: send_one_def send_fails_def Let_def split: sum.splits option.splits)

lemma outcome_record_status: "a_status (outcome_record e ps fs st err) = st"
  by (simp add: outcome_record_def Let_def)

lemma outcome_record_email: "a_email (outcome_record e ps fs st err) = e"
  by (simp add: outcome_record_def Let_def)

lemma send_one_status:
  "a_status (s_record (send_one env g (e, fs))) = (if send_fails env e fs then Failed else Sent)"
  using send_one_record [of env g e fs] by (auto simp: outcome_record_status)

lemma send_one_record_email: "a_email (s_record (send_one env g (e, fs))) = e"
  using send_one_record [of env g e fs] by (auto simp: outcome_record_email)

lemma skipped_record_status: "a_status (skipped_record p) = Skipped"
  by (simp add: skipped_record_def)

lemma length_collect_errors:
  "length (collect_errors steps) = length (filter (\<lambda>s. s_error s \<noteq> None) steps)"
  by (induction steps) (auto simp: collect_errors_def split: option.splits)

lemma card_filter_uniq: "card {x \<in> set xs. P x} = length (filter P (uniq xs))"
proof -
  have "{x \<in> set xs. P x} = set (filter P (uniq xs))"
    by (auto simp: set_uniq)
  moreover have "distinct (filter P (uniq xs))"
    by (simp add: distinct_uniq)
  ultimately show ?thesis
    using distinct_card [of "filter P (uniq xs)"] by metis
qed

lemma length_filter_not: "length (filter (\<lambda>x. \<not> P x) xs) = length xs - length (filter P xs)"
  using sum_length_filter_compl [of P xs] by simp

text \<open>
  C4. Take a run in which the store answers with rows, the evaluator answers for every
  enabled row, and at least one enabled row is due. Let \<open>N\<close> be the number of distinct
  recipients among the due rows and \<open>K\<close> the number of them whose delivery (rendering
  the digest and handing it to the delivery service) fails. Then the run returns a
  summary with \<open>successCount = N - K\<close> and \<open>failureCount = K\<close>, it hands exactly
  \<open>N\<close> outcomes that are not \<open>skipped\<close> to the recorder, \<open>N - K\<close> of them \<open>sent\<close>
  and \<open>K\<close> \<open>failed\<close>, and its status is 207 when \<open>K > 0\<close> and 200 when \<open>K = 0\<close>.
\<close>

theorem batch_counts:
  assumes rows: "select_all env = Inr (Some rows)"
    and evals: "\<forall>p \<in> set (filter newsletter_enabled rows). evaluates env p"
    and due: "due = filter (is_due env) (filter newsletter_enabled rows)"
    and some: "due \<noteq> []"
    and N: "N = card (email ` set due)"
    and K: "K = card {e \<in> email ` set due. send_fails env e (digest_for env due e)}"
  shows "\<exists>r batch. send_emails env = Inr r \<and> tracked r = Some batch
           \<and> successCount (rbody (resp r)) = Some (N - K)
           \<and> failureCount (rbody (resp r)) = Some K
           \<and> length (filter (\<lambda>a. a_status a \<noteq> Skipped) batch) = N
           \<and> length (filter (\<lambda>a. a_status a = Sent) batch) = N - K
           \<and> length (filter (\<lambda>a. a_status a = Failed) batch) = K
           \<and> statusCode (resp r) = (if K > 0 then 207 else 200)"
proof -
  define recips where "recips = uniq (map email due)"
  define fails where "fails = (\<lambda>e. send_fails env e (digest_for env due e))"
  define steps where
    "steps = map (\<lambda>e. send_one env (groupByUser due) (e, digest_for env due e)) (uniq (map email due))"
  define errors where "errors = collect_errors steps"
  define skipped where
    "skipped = map skipped_record (filter (\<lambda>p. \<not> is_due env p) (filter newsletter_enabled rows))"
  note run = send_emails_run [OF rows evals due some steps_def errors_def]
  have N': "N = length recips"
    using length_uniq [of "map email due"] by (simp add: N recips_def)
  have K': "K = length (filter fails recips)"
    using card_filter_uniq [of "map email due" fails] by (simp add: K recips_def fails_def)
  have errs: "length errors = K"
    by (simp add: errors_def length_collect_errors steps_def filter_map comp_def send_one_failed
        K' recips_def fails_def)
  have succ: "count_successes steps = N - K"
    by (simp add: count_successes_def steps_def filter_map comp_def send_one_error
        N' K' recips_def fails_def length_filter_not)
  have sk: "\<And>st. st \<noteq> Skipped \<Longrightarrow> filter (\<lambda>a. a_status a = st) skipped = []"
    by (auto simp: skipped_def filter_empty_conv skipped_record_status)
  have sent: "length (filter (\<lambda>a. a_status a = Sent) (map s_record steps)) = N - K"
    by (simp add: steps_def filter_map comp_def send_one_status
        N' K' recips_def fails_def length_filter_not)
  have failed: "length (filter (\<lambda>a. a_status a = Failed) (map s_record steps)) = K"
    by (simp add: steps_def filter_map comp_def send_one_status K' recips_def fails_def)
  have code: "(errors \<noteq> []) = (K > 0)"
    using errs by auto
  define batch where "batch = skipped @ map s_record steps"
  define r where
    "r = \<lparr> resp = \<lparr> statusCode = (if errors \<noteq> [] then 207 else 200),
                     rbody = SummaryBody
                       (''Processed '' @ show_nat (length steps) @ '' newsletters'')
                       (count_successes steps) (length errors)
                       (if errors \<noteq> [] then Some errors else None) \<rparr>,
            tracked = Some batch,
            rendered = concat (map s_rendered steps),
            mailed = concat (map s_mailed steps) \<rparr>"
  have 1: "send_emails env = Inr r"
    unfolding run r_def batch_def skipped_def ..
  have 2: "tracked r = Some batch"
    by (simp add: r_def)
  have 3: "successCount (rbody (resp r)) = Some (N - K)"
    by (simp add: r_def succ)
  have 4: "failureCount (rbody (resp r)) = Some K"
    by (simp add: r_def errs)
  have 5: "length (filter (\<lambda>a. a_status a = Sent) batch) = N - K"
    using sk [of Sent] sent by (simp add: batch_def del: filter_map)
  have 6: "length (filter (\<lambda>a. a_status a = Failed) batch) = K"
    using sk [of Failed] failed by (simp add: batch_def del: filter_map)
  have 7: "statusCode (resp r) = (if K > 0 then 207 else 200)"
    using code by (simp add: r_def)
  have nsk: "filter (\<lambda>a. a_status a \<noteq> Skipped) skipped = []"
    by (auto simp: skipped_def filter_empty_conv skipped_record_status)
  have all: "length (filter (\<lambda>a. a_status a \<noteq> Skipped) (map s_record steps)) = N"
    by (simp add: steps_def filter_map comp_def send_one_status N' recips_def)
  have 8: "length (filter (\<lambda>a. a_status a \<noteq> Skipped) batch) = N"
    using nsk all by (simp add: batch_def del: filter_map)
  from 1 2 3 4 5 6 7 8 show ?thesis by blast
qed

lemma monday_due:
  "sendHour_of js0 (send_time p) = Num 9 \<Longrightarrow>
   shouldSendNewsletter (js env_monday) (clock env_monday) (frequency p) (send_time p) (timezone p)
     = Inr (frequency p = ''daily'' \<or> frequency p = ''weekly'')"
  by (simp add: env_monday_def shouldSendNewsletter_def getCurrentHourInTimezone_def
      getCurrentDayInTimezone_def getCurrentDayOfMonthInTimezone_def monday_9_def
      parseInt_09 parseInt_8 dayMap_def)

lemma monday_rows_hours: "\<forall>p \<in> set monday_rows. sendHour_of js0 (send_time p) = Num 9"
  by (simp add: monday_rows_def ada_daily_def ada_weekly_def bob_daily_def cy_monthly_def
      dan_daily_def a_pref_def sendHour_0900 sendHour_0930)

lemma monday_enabled: "filter newsletter_enabled monday_rows = monday_rows"
  by (simp add: monday_rows_def ada_daily_def ada_weekly_def bob_daily_def cy_monthly_def
      dan_daily_def a_pref_def)

lemma monday_evaluates: "\<forall>p \<in> set (filter newsletter_enabled monday_rows). evaluates env_monday p"
  unfolding monday_enabled
proof
  fix p assume "p \<in> set monday_rows"
  then have "sendHour_of js0 (send_time p) = Num 9"
    using monday_rows_hours by blast
  then show "evaluates env_monday p"
    by (simp add: evaluates_def monday_due)
qed

lemma monday_is_due:
  "p \<in> set monday_rows \<Longrightarrow> is_due env_monday p = (frequency p = ''daily'' \<or> frequency p = ''weekly'')"
  using monday_rows_hours by (simp add: is_due_def monday_due)

lemma monday_due_rows:
  "filter (is_due env_monday) (filter newsletter_enabled monday_rows)
     = [ada_daily, bob_daily, ada_weekly, dan_daily]"
proof -
  have "filter (is_due env_monday) monday_rows
          = filter (\<lambda>p. frequency p = ''daily'' \<or> frequency p = ''weekly'') monday_rows"
    by (rule filter_cong) (simp_all add: monday_is_due)
  also have "\<dots> = [ada_daily, bob_daily, ada_weekly, dan_daily]"
    by (simp add: monday_rows_def ada_daily_def ada_weekly_def bob_daily_def cy_monthly_def
        dan_daily_def a_pref_def)
  finally show ?thesis by (simp add: monday_enabled)
qed

lemma monday_emails:
  "map email [ada_daily, bob_daily, ada_weekly, dan_daily]
     = [''ada@x.org'', ''bob@x.org'', ''ada@x.org'', ''dan@x.org'']"
  by (simp add: ada_daily_def ada_weekly_def bob_daily_def dan_daily_def a_pref_def)

lemma monday_following_array: "is_array (fc_contents (fetch_following env_monday p))"
  by (simp add: fetch_following_def getContentsByPlatformAndUsername_def env_monday_def)

lemma monday_digest_renders: "\<not> list_ex entry_throws (digest_for env_monday due e)"
  by (simp add: digest_for_def list_ex_iff entry_throws_def monday_following_array)

lemma monday_render:
  "renderNewsletterEmail env_monday e (digest_for env_monday due e) = Inr ''<html/>''"
proof -
  have "render env_monday (e, digest_for env_monday due e) = Inr ''<html/>''"
    by (simp add: env_monday_def)
  then show ?thesis
    by (simp add: renderNewsletterEmail_def NewsletterEmail_def monday_digest_renders)
qed

lemma monday_send_fails:
  "send_fails env_monday e (digest_for env_monday due e) = (e = ''bob@x.org'')"
proof -
  have "\<And>subject html. (ses_send env_monday e subject html \<noteq> None) = (e = ''bob@x.org'')"
    by (simp add: env_monday_def)
  then show ?thesis
    by (simp add: send_fails_def monday_render)
qed

text \<open>
  The Monday run: three recipients, one delivery fails.
\<close>

theorem batch_counts_monday:
  "\<exists>r batch. send_emails env_monday = Inr r \<and> tracked r = Some batch
     \<and> successCount (rbody (resp r)) = Some 2
     \<and> failureCount (rbody (resp r)) = Some 1
     \<and> length (filter (\<lambda>a. a_status a \<noteq> Skipped) batch) = 3
     \<and> length (filter (\<lambda>a. a_status a = Sent) batch) = 2
     \<and> length (filter (\<lambda>a. a_status a = Failed) batch) = 1
     \<and> statusCode (resp r) = 207"
proof -
  let ?due = "[ada_daily, bob_daily, ada_weekly, dan_daily]"
  have rows: "select_all env_monday = Inr (Some monday_rows)"
    by (simp add: env_monday_def)
  have due: "?due = filter (is_due env_monday) (filter newsletter_enabled monday_rows)"
    by (rule monday_due_rows [symmetric])
  have some: "?due \<noteq> []"
    by simp
  have ems: "email ` set ?due = {''ada@x.org'', ''bob@x.org'', ''dan@x.org''}"
    by (auto simp: ada_daily_def ada_weekly_def bob_daily_def dan_daily_def a_pref_def)
  have N: "3 = card (email ` set ?due)"
    unfolding ems by simp
  have "{e \<in> email ` set ?due. send_fails env_monday e (digest_for env_monday ?due e)}
          = {''bob@x.org''}"
    unfolding ems by (auto simp: monday_send_fails)
  then have K: "1 = card {e \<in> email ` set ?due.
                          send_fails env_monday e (digest_for env_monday ?due e)}"
    by simp
  show ?thesis
    using batch_counts [OF rows monday_evaluates due some N K] by simp
qed


lemma filter_eq_distinct: "distinct xs \<Longrightarrow> x \<in> set xs \<Longrightarrow> filter (\<lambda>y. y = x) xs = [x]"
  by (induction xs) (auto simp: filter_empty_conv)

lemma due_frequency:
  "is_due env p \<Longrightarrow> frequency p = ''daily'' \<or> frequency p = ''weekly'' \<or> frequency p = ''monthly''"
  by (auto simp: is_due_def shouldSendNewsletter_def Let_def split: sum.splits if_splits)

lemma outcome_record_first:
  "outcome_record e (first # others) fs st err =
     \<lparr> a_email = e, a_user_id = Some (user_id first), a_status = st, a_error_message = err,
       a_followings_count = length fs, a_total_contents_count = totalContents fs,
       a_platforms = uniq (map fc_platform fs),
       a_frequency = or_default (frequency first) ''daily'',
       a_timezone = or_default (timezone first) ''UTC'',
       a_send_time = or_default (send_time first) ''00:00'' \<rparr>"
  by (simp add: outcome_record_def)

lemma digest_platforms: "map fc_platform (digest_for env due e) = map platform (filter (\<lambda>p. email p = e) due)"
  by (simp add: digest_for_def fetch_following_def comp_def split: sum.splits)

lemma digest_usernames: "map fc_username (digest_for env due e) = map username (filter (\<lambda>p. email p = e) due)"
  by (simp add: digest_for_def fetch_following_def comp_def split: sum.splits)

text \<open>
  C10. Take a run as in C4 and a recipient whose due preferences are \<open>first # others\<close>,
  in the order the store returned them. Then the recorder receives exactly one outcome
  for that recipient that is not \<open>skipped\<close>, and in it the frequency is that of
  \<open>first\<close>, the time zone and the send time are those of \<open>first\<close> (an empty one
  being replaced by \<open>"UTC"\<close> and \<open>"00:00"\<close>), nothing being read from \<open>others\<close>, while
  the platforms are those of all the pairs of the group, each once.
\<close>

theorem outcome_fields_from_first_preference:
  assumes rows: "select_all env = Inr (Some rows)"
    and evals: "\<forall>p \<in> set (filter newsletter_enabled rows). evaluates env p"
    and due: "due = filter (is_due env) (filter newsletter_enabled rows)"
    and g: "filter (\<lambda>p. email p = e) due = first # others"
  shows "\<exists>r batch a. send_emails env = Inr r \<and> tracked r = Some batch
           \<and> filter (\<lambda>x. a_email x = e \<and> a_status x \<noteq> Skipped) batch = [a]
           \<and> a_frequency a = frequency first
           \<and> a_timezone a = or_default (timezone first) ''UTC''
           \<and> a_send_time a = or_default (send_time first) ''00:00''
           \<and> a_platforms a = uniq (map platform (first # others))"
proof -
  define steps where
    "steps = map (\<lambda>e. send_one env (groupByUser due) (e, digest_for env due e)) (uniq (map email due))"
  define errors where "errors = collect_errors steps"
  define skipped where
    "skipped = map skipped_record (filter (\<lambda>p. \<not> is_due env p) (filter newsletter_enabled rows))"
  define a where "a = s_record (send_one env (groupByUser due) (e, digest_for env due e))"
  have "first \<in> set (filter (\<lambda>p. email p = e) due)"
    by (simp add: g)
  then have first_in: "first \<in> set due" and first_mail: "email first = e"
    by simp_all
  then have some: "due \<noteq> []" and e_in: "e \<in> set (uniq (map email due))"
    by (auto simp: set_uniq)
  note run = send_emails_run [OF rows evals due some steps_def errors_def]
  have first_due: "is_due env first"
    using first_in due by simp
  have grp: "map_get (groupByUser due) e = Some (first # others)"
    using first_in first_mail by (auto simp: groupByUser_get g)
  obtain err where a_eq:
    "a = outcome_record e (first # others) (digest_for env due e)
           (if send_fails env e (digest_for env due e) then Failed else Sent) err"
    using send_one_record [of env "groupByUser due" e "digest_for env due e"]
    by (auto simp: a_def grp)
  have sk: "filter (\<lambda>x. a_email x = e \<and> a_status x \<noteq> Skipped) skipped = []"
    by (auto simp: skipped_def filter_empty_conv skipped_record_status)
  have "filter (\<lambda>x. a_email x = e \<and> a_status x \<noteq> Skipped) (map s_record steps)
          = map (\<lambda>e. s_record (send_one env (groupByUser due) (e, digest_for env due e)))
              (filter (\<lambda>y. y = e) (uniq (map email due)))"
    by (simp add: steps_def filter_map comp_def send_one_record_email send_one_status)
  also have "\<dots> = [a]"
    by (simp add: filter_eq_distinct [OF distinct_uniq e_in] a_def)
  finally have st: "filter (\<lambda>x. a_email x = e \<and> a_status x \<noteq> Skipped) (map s_record steps) = [a]" .
  have 1: "filter (\<lambda>x. a_email x = e \<and> a_status x \<noteq> Skipped) (skipped @ map s_record steps) = [a]"
    using sk st by (simp del: filter_map)
  have 2: "a_frequency a = frequency first"
    using due_frequency [OF first_due] by (auto simp: a_eq outcome_record_first or_default_def)
  have 3: "a_timezone a = or_default (timezone first) ''UTC''"
    by (simp add: a_eq outcome_record_first)
  have 4: "a_send_time a = or_default (send_time first) ''00:00''"
    by (simp add: a_eq outcome_record_first)
  have 5: "a_platforms a = uniq (map platform (first # others))"
    using digest_platforms [of env due e] by (simp add: a_eq outcome_record_first g del: list.map)
  define r where
    "r = \<lparr> resp = \<lparr> statusCode = (if errors \<noteq> [] then 207 else 200),
                     rbody = SummaryBody
                       (''Processed '' @ show_nat (length steps) @ '' newsletters'')
                       (count_successes steps) (length errors)
                       (if errors \<noteq> [] then Some errors else None) \<rparr>,
            tracked = Some (skipped @ map s_record steps),
            rendered = concat (map s_rendered steps),
            mailed = concat (map s_mailed steps) \<rparr>"
  have 0: "send_emails env = Inr r"
    unfolding run r_def skipped_def ..
  have 00: "tracked r = Some (skipped @ map s_record steps)"
    by (simp add: r_def)
  from 0 00 1 2 3 4 5 show ?thesis by blast
qed


text \<open>
  In the Monday run the outcome of \<open>ada@x.org\<close> carries the schedule of her first
  preference (daily, UTC, 09:00), not that of her second (weekly, Europe/London, 09:30),
  and both platforms.
\<close>

theorem outcome_fields_monday_ada:
  "\<exists>r batch a. send_emails env_monday = Inr r \<and> tracked r = Some batch
     \<and> filter (\<lambda>x. a_email x = ''ada@x.org'' \<and> a_status x \<noteq> Skipped) batch = [a]
     \<and> a_frequency a = ''daily'' \<and> a_timezone a = ''UTC'' \<and> a_send_time a = ''09:00''
     \<and> a_platforms a = [''medium'', ''x'']"
proof -
  let ?due = "[ada_daily, bob_daily, ada_weekly, dan_daily]"
  have rows: "select_all env_monday = Inr (Some monday_rows)"
    by (simp add: env_monday_def)
  have due: "?due = filter (is_due env_monday) (filter newsletter_enabled monday_rows)"
    by (rule monday_due_rows [symmetric])
  have g: "filter (\<lambda>p. email p = ''ada@x.org'') ?due = ada_daily # [ada_weekly]"
    by (simp add: ada_daily_def ada_weekly_def bob_daily_def dan_daily_def a_pref_def)
  show ?thesis
    using outcome_fields_from_first_preference [OF rows monday_evaluates due g]
    by (simp add: ada_daily_def ada_weekly_def a_pref_def or_default_def)
qed

lemma fetch_following_contents:
  "fc_contents (fetch_following env p) =
     (case getContentsByPlatformAndUsername env (platform p) (username p) of
        Inl e \<Rightarrow> ContentArray []
      | Inr Falsy \<Rightarrow> ContentArray []
      | Inr (Truthy v) \<Rightarrow> v)"
  by (simp add: fetch_following_def split: sum.splits json_body.splits)

lemma digest_length: "length (digest_for env due e) = length (filter (\<lambda>p. email p = e) due)"
  by (simp add: digest_for_def)

lemma digest_nth:
  "i < length (filter (\<lambda>p. email p = e) due) \<Longrightarrow>
   digest_for env due e ! i = fetch_following env (filter (\<lambda>p. email p = e) due ! i)"
  by (simp add: digest_for_def)

lemma fetch_following_names:
  "fc_username (fetch_following env p) = username p \<and> fc_platform (fetch_following env p) = platform p"
  by (simp add: fetch_following_def split: sum.splits)

lemma char_of_49: "char_of (49 :: nat) = CHR ''1''"
  by code_simp

lemma concat_map_if:
  "concat (map (\<lambda>x. if P x then f x else []) xs) = concat (map f (filter P xs))"
  by (induction xs) auto

text \<open>
  What holds of a recipient's digest whatever the retrieved bodies are. The renderer is
  called exactly once for the recipient, with one entry per due pair, in order: the
  entry of a pair whose retrieval fails has an empty array, the entry of a pair whose
  retrieval yields a truthy body has that body, whole. A message is handed to the
  delivery service exactly when rendering succeeds, and the one outcome recorded for
  the recipient is \<open>failed\<close> when rendering or delivery throws and \<open>sent\<close> otherwise.
\<close>

lemma digest_entries_per_pair:
  assumes rows: "select_all env = Inr (Some rows)"
    and evals: "\<forall>p \<in> set (filter newsletter_enabled rows). evaluates env p"
    and due: "due = filter (is_due env) (filter newsletter_enabled rows)"
    and e: "e \<in> email ` set due"
    and g: "g = filter (\<lambda>p. email p = e) due"
  shows "\<exists>r fs. send_emails env = Inr r
           \<and> fs = digest_for env due e
           \<and> filter (\<lambda>c. fst c = e) (rendered r) = [(e, fs)]
           \<and> length fs = length g
           \<and> (\<forall>i < length g.
                 fc_username (fs ! i) = username (g ! i) \<and> fc_platform (fs ! i) = platform (g ! i)
                 \<and> (retrieval_fails env (g ! i) \<longrightarrow> fc_contents (fs ! i) = ContentArray [])
                 \<and> (\<forall>v. getContentsByPlatformAndUsername env (platform (g ! i)) (username (g ! i))
                            = Inr (Truthy v) \<longrightarrow> fc_contents (fs ! i) = v))
           \<and> filter (\<lambda>m. fst m = e) (mailed r)
               = (case renderNewsletterEmail env e fs of
                    Inl ex \<Rightarrow> []
                  | Inr html \<Rightarrow> [(e, subject_of (totalContents fs), html)])
           \<and> (\<exists>batch a. tracked r = Some batch
                 \<and> filter (\<lambda>x. a_email x = e \<and> a_status x \<noteq> Skipped) batch = [a]
                 \<and> a_status a = (if send_fails env e fs then Failed else Sent)
                 \<and> a_followings_count a = length g
                 \<and> a_total_contents_count a = totalContents fs)"
proof -
  define steps where
    "steps = map (\<lambda>e. send_one env (groupByUser due) (e, digest_for env due e)) (uniq (map email due))"
  define errors where "errors = collect_errors steps"
  define fs where "fs = digest_for env due e"
  define skipped where
    "skipped = map skipped_record (filter (\<lambda>p. \<not> is_due env p) (filter newsletter_enabled rows))"
  define r where
    "r = \<lparr> resp = \<lparr> statusCode = (if errors \<noteq> [] then 207 else 200),
                     rbody = SummaryBody
                       (''Processed '' @ show_nat (length steps) @ '' newsletters'')
                       (count_successes steps) (length errors)
                       (if errors \<noteq> [] then Some errors else None) \<rparr>,
            tracked = Some (skipped @ map s_record steps),
            rendered = concat (map s_rendered steps),
            mailed = concat (map s_mailed steps) \<rparr>"
  have some: "due \<noteq> []" and e_in: "e \<in> set (uniq (map email due))"
    using e by (auto simp: set_uniq)
  have 0: "send_emails env = Inr r"
    unfolding r_def skipped_def
    by (rule send_emails_run [OF rows evals due some steps_def errors_def])
  have only_e: "filter (\<lambda>y. y = e) (uniq (map email due)) = [e]"
    by (rule filter_eq_distinct [OF distinct_uniq e_in])
  have rend: "rendered r = map (\<lambda>e. (e, digest_for env due e)) (uniq (map email due))"
    by (simp add: r_def steps_def comp_def send_one_rendered)
  have 1: "filter (\<lambda>c. fst c = e) (rendered r) = [(e, fs)]"
    by (simp add: rend filter_map comp_def only_e fs_def)
  have 2: "length fs = length g"
    by (simp add: fs_def g digest_length)
  have 3: "\<forall>i < length g.
             fc_username (fs ! i) = username (g ! i) \<and> fc_platform (fs ! i) = platform (g ! i)
             \<and> (retrieval_fails env (g ! i) \<longrightarrow> fc_contents (fs ! i) = ContentArray [])
             \<and> (\<forall>v. getContentsByPlatformAndUsername env (platform (g ! i)) (username (g ! i))
                        = Inr (Truthy v) \<longrightarrow> fc_contents (fs ! i) = v)"
  proof (intro allI impI)
    fix i assume "i < length g"
    then have nth: "fs ! i = fetch_following env (g ! i)"
      by (simp add: fs_def g digest_nth)
    show "fc_username (fs ! i) = username (g ! i) \<and> fc_platform (fs ! i) = platform (g ! i)
          \<and> (retrieval_fails env (g ! i) \<longrightarrow> fc_contents (fs ! i) = ContentArray [])
          \<and> (\<forall>v. getContentsByPlatformAndUsername env (platform (g ! i)) (username (g ! i))
                     = Inr (Truthy v) \<longrightarrow> fc_contents (fs ! i) = v)"
      by (auto simp: nth fetch_following_names fetch_following_contents retrieval_fails_def
          split: sum.splits)
  qed
  have mail_of: "\<And>x. filter (\<lambda>m. fst m = e) (s_mailed (send_one env (groupByUser due) (x, digest_for env due x)))
                     = (if x = e then s_mailed (send_one env (groupByUser due) (x, digest_for env due x)) else [])"
    by (auto simp: send_one_mailed split: sum.splits)
  have "filter (\<lambda>m. fst m = e) (mailed r)
          = concat (map (\<lambda>x. if x = e then s_mailed (send_one env (groupByUser due) (x, digest_for env due x)) else [])
                      (uniq (map email due)))"
    by (simp add: r_def steps_def filter_concat comp_def mail_of)
  also have "\<dots> = concat (map (\<lambda>x. s_mailed (send_one env (groupByUser due) (x, digest_for env due x)))
                             (filter (\<lambda>y. y = e) (uniq (map email due))))"
    by (rule concat_map_if)
  also have "\<dots> = s_mailed (send_one env (groupByUser due) (e, fs))"
    by (simp add: only_e fs_def)
  finally have 4: "filter (\<lambda>m. fst m = e) (mailed r)
               = (case renderNewsletterEmail env e fs of
                    Inl ex \<Rightarrow> []
                  | Inr html \<Rightarrow> [(e, subject_of (totalContents fs), html)])"
    by (simp add: send_one_mailed)
  define a where "a = s_record (send_one env (groupByUser due) (e, fs))"
  obtain err where a_eq:
    "a = outcome_record e (case map_get (groupByUser due) e of None \<Rightarrow> [] | Some ps \<Rightarrow> ps) fs
           (if send_fails env e fs then Failed else Sent) err"
    using send_one_record [of env "groupByUser due" e fs] by (auto simp: a_def)
  have sk: "filter (\<lambda>x. a_email x = e \<and> a_status x \<noteq> Skipped) skipped = []"
    by (auto simp: skipped_def filter_empty_conv skipped_record_status)
  have "filter (\<lambda>x. a_email x = e \<and> a_status x \<noteq> Skipped) (map s_record steps)
          = map (\<lambda>e. s_record (send_one env (groupByUser due) (e, digest_for env due e)))
              (filter (\<lambda>y. y = e) (uniq (map email due)))"
    by (simp add: steps_def filter_map comp_def send_one_record_email send_one_status)
  also have "\<dots> = [a]"
    by (simp add: only_e a_def fs_def)
  finally have st: "filter (\<lambda>x. a_email x = e \<and> a_status x \<noteq> Skipped) (map s_record steps) = [a]" .
  have 5: "\<exists>batch a. tracked r = Some batch
             \<and> filter (\<lambda>x. a_email x = e \<and> a_status x \<noteq> Skipped) batch = [a]
             \<and> a_status a = (if send_fails env e fs then Failed else Sent)
             \<and> a_followings_count a = length g
             \<and> a_total_contents_count a = totalContents fs"
  proof (intro exI conjI)
    show "tracked r = Some (skipped @ map s_record steps)"
      by (simp add: r_def)
    show "filter (\<lambda>x. a_email x = e \<and> a_status x \<noteq> Skipped) (skipped @ map s_record steps) = [a]"
      using sk st by (simp del: filter_map)
    show "a_status a = (if send_fails env e fs then Failed else Sent)"
      by (simp add: a_eq outcome_record_status)
    show "a_followings_count a = length g"
      using 2 by (simp add: a_eq outcome_record_def Let_def)
    show "a_total_contents_count a = totalContents fs"
      by (simp add: a_eq outcome_record_def Let_def)
  qed
  show ?thesis
    by (rule exI [of _ r], rule exI [of _ fs], intro conjI) (rule 0 fs_def 1 2 3 4 5)+
qed

text \<open>
  A digest all of whose entries are empty arrays reaches the library's \<open>render\<close> and
  has the plain subject: a recipient without content is not skipped.
\<close>

lemma empty_digest_is_rendered:
  assumes "\<forall>f \<in> set fs. fc_contents f = ContentArray []"
  shows "renderNewsletterEmail env e fs = render env (e, fs)
         \<and> totalContents fs = Some 0
         \<and> subject_of (totalContents fs) = ''Your Content Digest''"
proof -
  have no: "\<not> list_ex entry_throws fs"
    using assms by (simp add: list_ex_iff entry_throws_def)
  have "foldl (\<lambda>sum f. js_plus sum (length_prop (fc_contents f))) acc fs = acc" for acc
    using assms by (induction fs arbitrary: acc) (auto, case_tac acc, auto)
  then have total: "totalContents fs = Some 0"
    by (simp add: totalContents_def)
  show ?thesis
    by (simp add: renderNewsletterEmail_def NewsletterEmail_def no total subject_of_def)
qed

text \<open>
  An entry that holds the object \<open>{contents, fetchedAt}\<close> makes the component throw,
  and with it the whole digest of its recipient fails: nothing is mailed.
\<close>

lemma snapshot_entry_fails_the_render:
  assumes "f \<in> set fs" and "fc_contents f = ContentsSnapshot cs fetched"
  shows "renderNewsletterEmail env e fs = Inl (ErrorObj ''following.contents.map is not a function'')
         \<and> send_fails env e fs"
proof -
  have "entry_throws f"
    using assms(2) by (simp add: entry_throws_def)
  then have "list_ex entry_throws fs"
    using assms(1) by (auto simp: list_ex_iff)
  then show ?thesis
    by (simp add: renderNewsletterEmail_def NewsletterEmail_def send_fails_def)
qed


lemma snapshot_retrieval_fails_the_recipient:
  assumes rows: "select_all env = Inr (Some rows)"
    and evals: "\<forall>p \<in> set (filter newsletter_enabled rows). evaluates env p"
    and due: "due = filter (is_due env) (filter newsletter_enabled rows)"
    and p: "p \<in> set due"
    and got: "getContentsByPlatformAndUsername env (platform p) (username p)
                = Inr (Truthy (ContentsSnapshot cs fetched))"
  shows "\<exists>r batch a. send_emails env = Inr r
           \<and> filter (\<lambda>m. fst m = email p) (mailed r) = []
           \<and> tracked r = Some batch
           \<and> filter (\<lambda>x. a_email x = email p \<and> a_status x \<noteq> Skipped) batch = [a]
           \<and> a_status a = Failed"
proof -
  define g where "g = filter (\<lambda>q. email q = email p) due"
  have e: "email p \<in> email ` set due"
    using p by simp
  have "p \<in> set g"
    using p by (simp add: g_def)
  then obtain i where i: "i < length g" and gi: "g ! i = p"
    by (auto simp: in_set_conv_nth)
  obtain r fs batch a where r: "send_emails env = Inr r"
    and len: "length fs = length g"
    and entries: "\<forall>i < length g.
                 fc_username (fs ! i) = username (g ! i) \<and> fc_platform (fs ! i) = platform (g ! i)
                 \<and> (retrieval_fails env (g ! i) \<longrightarrow> fc_contents (fs ! i) = ContentArray [])
                 \<and> (\<forall>v. getContentsByPlatformAndUsername env (platform (g ! i)) (username (g ! i))
                            = Inr (Truthy v) \<longrightarrow> fc_contents (fs ! i) = v)"
    and mail: "filter (\<lambda>m. fst m = email p) (mailed r)
               = (case renderNewsletterEmail env (email p) fs of
                    Inl ex \<Rightarrow> []
                  | Inr html \<Rightarrow> [(email p, subject_of (totalContents fs), html)])"
    and t: "tracked r = Some batch"
    and one: "filter (\<lambda>x. a_email x = email p \<and> a_status x \<noteq> Skipped) batch = [a]"
    and st: "a_status a = (if send_fails env (email p) fs then Failed else Sent)"
    using digest_entries_per_pair [OF rows evals due e g_def] by blast
  have "fc_contents (fs ! i) = ContentsSnapshot cs fetched"
    using entries i gi got by simp
  moreover have "fs ! i \<in> set fs"
    using i len by simp
  ultimately have thrown:
    "renderNewsletterEmail env (email p) fs = Inl (ErrorObj ''following.contents.map is not a function'')
     \<and> send_fails env (email p) fs"
    by (rule snapshot_entry_fails_the_render [rotated])
  have 1: "filter (\<lambda>m. fst m = email p) (mailed r) = []"
    using mail thrown by simp
  have 2: "a_status a = Failed"
    using st thrown by simp
  from r 1 t one 2 show ?thesis by blast
qed



text \<open>
  In the Monday run, where the retrieved bodies are arrays, the digest of \<open>ada@x.org\<close>
  keeps the contents of \<open>writer1\<close> beside the failed \<open>writer2\<close>, and \<open>dan@x.org\<close>,
  whose only retrieval failed, is still sent a digest.
\<close>

lemma monday_contents:
  "getContentsByPlatformAndUsername env_monday pf un =
     (if un = ''writer1'' then Inr (Truthy (ContentArray [an_item]))
      else Inl (ErrorObj ''timeout''))"
  by (simp add: getContentsByPlatformAndUsername_def env_monday_def)

lemma digest_monday_ada_and_dan:
  "\<exists>r. send_emails env_monday = Inr r
     \<and> filter (\<lambda>c. fst c = ''ada@x.org'') (rendered r)
         = [(''ada@x.org'',
             [\<lparr> fc_username = ''writer1'', fc_platform = ''medium'',
                 fc_contents = ContentArray [an_item] \<rparr>,
              \<lparr> fc_username = ''writer2'', fc_platform = ''x'', fc_contents = ContentArray [] \<rparr>])]
     \<and> filter (\<lambda>m. fst m = ''ada@x.org'') (mailed r)
         = [(''ada@x.org'', ''Your Content Digest: 1 new update'', ''<html/>'')]
     \<and> filter (\<lambda>m. fst m = ''dan@x.org'') (mailed r)
         = [(''dan@x.org'', ''Your Content Digest'', ''<html/>'')]"
proof -
  let ?due = "[ada_daily, bob_daily, ada_weekly, dan_daily]"
  have rows: "select_all env_monday = Inr (Some monday_rows)"
    by (simp add: env_monday_def)
  have due: "?due = filter (is_due env_monday) (filter newsletter_enabled monday_rows)"
    by (rule monday_due_rows [symmetric])
  have ada: "''ada@x.org'' \<in> email ` set ?due"
    by (simp add: ada_daily_def a_pref_def)
  have dan: "''dan@x.org'' \<in> email ` set ?due"
    by (simp add: dan_daily_def a_pref_def)
  have d_ada: "digest_for env_monday ?due ''ada@x.org''
                 = [\<lparr> fc_username = ''writer1'', fc_platform = ''medium'',
                       fc_contents = ContentArray [an_item] \<rparr>,
                    \<lparr> fc_username = ''writer2'', fc_platform = ''x'', fc_contents = ContentArray [] \<rparr>]"
    by (simp add: digest_for_def fetch_following_def monday_contents
        ada_daily_def ada_weekly_def bob_daily_def dan_daily_def a_pref_def)
  have d_dan: "digest_for env_monday ?due ''dan@x.org''
                 = [\<lparr> fc_username = ''writer2'', fc_platform = ''x'', fc_contents = ContentArray [] \<rparr>]"
    by (simp add: digest_for_def fetch_following_def monday_contents
        ada_daily_def ada_weekly_def bob_daily_def dan_daily_def a_pref_def)
  obtain r fs where r: "send_emails env_monday = Inr r"
    and fs: "fs = digest_for env_monday ?due ''ada@x.org''"
    and rend: "filter (\<lambda>c. fst c = ''ada@x.org'') (rendered r) = [(''ada@x.org'', fs)]"
    and mail: "filter (\<lambda>m. fst m = ''ada@x.org'') (mailed r)
               = (case renderNewsletterEmail env_monday ''ada@x.org'' fs of
                    Inl ex \<Rightarrow> []
                  | Inr html \<Rightarrow> [(''ada@x.org'', subject_of (totalContents fs), html)])"
    using digest_entries_per_pair [OF rows monday_evaluates due ada refl] by blast
  obtain r' fs' where r': "send_emails env_monday = Inr r'"
    and fs': "fs' = digest_for env_monday ?due ''dan@x.org''"
    and mail': "filter (\<lambda>m. fst m = ''dan@x.org'') (mailed r')
               = (case renderNewsletterEmail env_monday ''dan@x.org'' fs' of
                    Inl ex \<Rightarrow> []
                  | Inr html \<Rightarrow> [(''dan@x.org'', subject_of (totalContents fs'), html)])"
    using digest_entries_per_pair [OF rows monday_evaluates due dan refl] by blast
  have same: "r' = r"
    using r r' by simp
  have t_ada: "subject_of (totalContents fs) = ''Your Content Digest: 1 new update''"
    unfolding fs d_ada by (simp add: totalContents_def subject_of_def char_of_49)
  have t_dan: "subject_of (totalContents fs') = ''Your Content Digest''"
    unfolding fs' d_dan by (simp add: totalContents_def subject_of_def)
  have 1: "filter (\<lambda>c. fst c = ''ada@x.org'') (rendered r)
         = [(''ada@x.org'',
             [\<lparr> fc_username = ''writer1'', fc_platform = ''medium'',
                 fc_contents = ContentArray [an_item] \<rparr>,
              \<lparr> fc_username = ''writer2'', fc_platform = ''x'', fc_contents = ContentArray [] \<rparr>])]"
    using rend by (simp only: fs d_ada)
  have 2: "filter (\<lambda>m. fst m = ''ada@x.org'') (mailed r)
         = [(''ada@x.org'', ''Your Content Digest: 1 new update'', ''<html/>'')]"
    using mail t_ada by (simp add: fs monday_render)
  have 3: "filter (\<lambda>m. fst m = ''dan@x.org'') (mailed r)
         = [(''dan@x.org'', ''Your Content Digest'', ''<html/>'')]"
    using mail' t_dan by (simp add: fs' monday_render same)
  show ?thesis
    by (rule exI [of _ r], intro conjI) (rule r 1 2 3)+
qed

text \<open>
  C3, at a run whose only enabled preference is rejected (weekly, on a Tuesday): the
  handler returns before \<open>trackBatchEmailAnalytics\<close>, so the \<open>skipped\<close> record it has
  built is never handed to the recorder.
\<close>

theorem all_rejected_run_records_nothing:
  "filter newsletter_enabled [ada_weekly] = [ada_weekly]
   \<and> shouldSendNewsletter (js env_tuesday) (clock env_tuesday) (frequency ada_weekly)
         (send_time ada_weekly) (timezone ada_weekly) = Inr False
   \<and> send_emails env_tuesday
        = Inr \<lparr> resp = \<lparr> statusCode = 200,
                          rbody = MessageBody ''No newsletters scheduled for this time'' \<rparr>,
                 tracked = None, rendered = [], mailed = [] \<rparr>"
proof -
  have en: "filter newsletter_enabled [ada_weekly] = [ada_weekly]"
    by (simp add: ada_weekly_def a_pref_def)
  have no: "shouldSendNewsletter (js env_tuesday) (clock env_tuesday) (frequency ada_weekly)
              (send_time ada_weekly) (timezone ada_weekly) = Inr False"
    by (simp add: env_tuesday_def ada_weekly_def a_pref_def shouldSendNewsletter_def
        getCurrentHourInTimezone_def getCurrentDayInTimezone_def tuesday_9_def
        sendHour_0930 parseInt_09 dayMap_def)
  have sel: "select_all env_tuesday = Inr (Some [ada_weekly])"
    by (simp add: env_tuesday_def)
  have run: "send_emails env_tuesday
        = Inr \<lparr> resp = \<lparr> statusCode = 200,
                          rbody = MessageBody ''No newsletters scheduled for this time'' \<rparr>,
                 tracked = None, rendered = [], mailed = [] \<rparr>"
    unfolding send_emails_def sel
    by (simp add: en no quiet_def del: filter.simps)
  from en no run show ?thesis by (intro conjI)
qed

text \<open>
  What the recorder receives in a run with a due preference, and what it misses in a
  run without one.
\<close>

lemma send_emails_tracked:
  assumes rows: "select_all env = Inr (Some rows)"
    and evals: "\<forall>p \<in> set (filter newsletter_enabled rows). evaluates env p"
    and due: "due = filter (is_due env) (filter newsletter_enabled rows)"
    and some: "due \<noteq> []"
  shows "\<exists>r. send_emails env = Inr r
           \<and> tracked r = Some (map skipped_record
                                (filter (\<lambda>p. \<not> is_due env p) (filter newsletter_enabled rows))
                              @ map (\<lambda>e. s_record (send_one env (groupByUser due)
                                                    (e, digest_for env due e)))
                                  (uniq (map email due)))"
proof -
  define steps where
    "steps = map (\<lambda>e. send_one env (groupByUser due) (e, digest_for env due e)) (uniq (map email due))"
  define errors where "errors = collect_errors steps"
  define r where
    "r = \<lparr> resp = \<lparr> statusCode = (if errors \<noteq> [] then 207 else 200),
                     rbody = SummaryBody
                       (''Processed '' @ show_nat (length steps) @ '' newsletters'')
                       (count_successes steps) (length errors)
                       (if errors \<noteq> [] then Some errors else None) \<rparr>,
            tracked = Some (map skipped_record
                              (filter (\<lambda>p. \<not> is_due env p) (filter newsletter_enabled rows))
                            @ map s_record steps),
            rendered = concat (map s_rendered steps),
            mailed = concat (map s_mailed steps) \<rparr>"
  have 0: "send_emails env = Inr r"
    unfolding r_def by (rule send_emails_run [OF rows evals due some steps_def errors_def])
  have 1: "tracked r = Some (map skipped_record
                                (filter (\<lambda>p. \<not> is_due env p) (filter newsletter_enabled rows))
                              @ map (\<lambda>e. s_record (send_one env (groupByUser due)
                                                    (e, digest_for env due e)))
                                  (uniq (map email due)))"
    by (simp add: r_def steps_def comp_def del: filter_filter)
  show ?thesis
    by (rule exI [of _ r], intro conjI) (rule 0 1)+
qed

lemma skipped_recorded_when_some_preference_is_due:
  assumes rows: "select_all env = Inr (Some rows)"
    and evals: "\<forall>p \<in> set (filter newsletter_enabled rows). evaluates env p"
    and some: "filter (is_due env) (filter newsletter_enabled rows) \<noteq> []"
    and p: "p \<in> set rows" "newsletter_enabled p" "\<not> is_due env p"
  shows "\<exists>r batch. send_emails env = Inr r \<and> tracked r = Some batch
           \<and> skipped_record p \<in> set batch
           \<and> a_status (skipped_record p) = Skipped
           \<and> a_followings_count (skipped_record p) = 0
           \<and> a_total_contents_count (skipped_record p) = Some 0"
proof -
  obtain r where r: "send_emails env = Inr r"
    and t: "tracked r = Some (map skipped_record
                                (filter (\<lambda>p. \<not> is_due env p) (filter newsletter_enabled rows))
                              @ map (\<lambda>e. s_record (send_one env
                                   (groupByUser (filter (is_due env) (filter newsletter_enabled rows)))
                                   (e, digest_for env (filter (is_due env) (filter newsletter_enabled rows)) e)))
                                  (uniq (map email (filter (is_due env) (filter newsletter_enabled rows)))))"
    using send_emails_tracked [OF rows evals refl some] by blast
  have m: "skipped_record p \<in> set (map skipped_record
          (filter (\<lambda>p. \<not> is_due env p) (filter newsletter_enabled rows))
           @ map (\<lambda>e. s_record (send_one env
                                   (groupByUser (filter (is_due env) (filter newsletter_enabled rows)))
                                   (e, digest_for env (filter (is_due env) (filter newsletter_enabled rows)) e)))
                                  (uniq (map email (filter (is_due env) (filter newsletter_enabled rows)))))"
    using p by simp
  have z: "a_status (skipped_record p) = Skipped \<and> a_followings_count (skipped_record p) = 0
           \<and> a_total_contents_count (skipped_record p) = Some 0"
    by (simp add: skipped_record_def)
  from r t m z show ?thesis by blast
qed

lemma nothing_recorded_when_no_preference_is_due:
  assumes rows: "select_all env = Inr (Some rows)"
    and evals: "\<forall>p \<in> set (filter newsletter_enabled rows). evaluates env p"
    and none: "filter (is_due env) (filter newsletter_enabled rows) = []"
  shows "\<exists>r. send_emails env = Inr r \<and> tracked r = None"
proof (cases "filter newsletter_enabled rows")
  case Nil
  then show ?thesis
    unfolding send_emails_def rows by (simp add: quiet_def)
next
  case (Cons q qs)
  have "filter_due env (q # qs) = Inr ([], map skipped_record (filter (\<lambda>p. \<not> is_due env p) (q # qs)))"
    using filter_due_total [of "q # qs" env] evals none Cons by simp
  then show ?thesis
    unfolding send_emails_def rows by (simp add: Cons quiet_def del: filter_due.simps filter.simps)
qed

section \<open>Properties of the read endpoints\<close>

lemma redis_get_followings_ok:
  "redis_get_error env = None \<Longrightarrow>
   redis_get_followings env w k = Inr (map_option fst (followings_cache w k))"
  by (simp add: redis_get_followings_def)

text \<open>
  C1, as the code has it. Let the request pass validation and the cache read succeed.
  If the cache holds an entry for the contents key, \<open>fetchContent\<close> answers 200 with
  exactly the cached contents and \<open>fetchedAt\<close> and leaves the stores and the trace
  of upstream calls as they were. If no search query is given, the platform has a
  strategy and the cache holds an entry for the followings key, \<open>fetchFollowings\<close>
  makes exactly one upstream call, \<open>userExists\<close>, and never the listing call: it
  answers 200 with exactly the cached followings and \<open>fetchedAt\<close> when the user
  exists, 404 when the user does not exist, and fails when \<open>userExists\<close> throws.
\<close>

theorem cache_hit_is_served_from_the_cache:
  assumes path: "parse_path ev = Some (pn, un)"
    and get: "redis_get_error env = None"
  shows "(contents_cache w (contents_key pn un (since_of ev)) = Some (c, ttl) \<longrightarrow>
            fetch_contents env ev w
              = (Inr \<lparr> statusCode = 200,
                        rbody = ContentsBody (cc_contents c) (cc_fetchedAt c) \<rparr>, w))
       \<and> (search_query (runtime env) ev = None
            \<and> followings_cache w (followings_key pn un) = Some (cf, ttl')
            \<and> followingStrategy env pn = Inr strat \<longrightarrow>
            snd (fetch_followings env ev w) = w\<lparr> calls := calls w @ [CallUserExists pn un] \<rparr>
            \<and> fst (fetch_followings env ev w)
                = (case isUserExists strat un of
                     Inl e \<Rightarrow> Inl e
                   | Inr userExists \<Rightarrow>
                       if userExists
                       then Inr \<lparr> statusCode = 200,
                                  rbody = FollowingsBody (cf_followings cf) (cf_fetchedAt cf) \<rparr>
                       else Inr \<lparr> statusCode = 404, rbody = ErrorBody ''user not found'' \<rparr>))"
proof (intro conjI impI)
  assume "contents_cache w (contents_key pn un (since_of ev)) = Some (c, ttl)"
  then show "fetch_contents env ev w
              = (Inr \<lparr> statusCode = 200,
                        rbody = ContentsBody (cc_contents c) (cc_fetchedAt c) \<rparr>, w)"
    by (simp add: fetch_contents_def path get)
next
  assume a: "search_query (runtime env) ev = None
            \<and> followings_cache w (followings_key pn un) = Some (cf, ttl')
            \<and> followingStrategy env pn = Inr strat"
  let ?w1 = "w\<lparr> calls := calls w @ [CallUserExists pn un] \<rparr>"
  have plain: "plain_branch env strat pn un ?w1
                 = (Inr (ok_followings (cf_followings cf) (cf_fetchedAt cf)), ?w1)"
    using a by (simp add: plain_branch_def redis_get_followings_ok [OF get])
  show "snd (fetch_followings env ev w) = ?w1"
    using a plain by (simp add: fetch_followings_def path Let_def split: sum.splits)
  show "fst (fetch_followings env ev w)
          = (case isUserExists strat un of
               Inl e \<Rightarrow> Inl e
             | Inr userExists \<Rightarrow>
                 if userExists
                 then Inr \<lparr> statusCode = 200,
                            rbody = FollowingsBody (cf_followings cf) (cf_fetchedAt cf) \<rparr>
                 else Inr \<lparr> statusCode = 404, rbody = ErrorBody ''user not found'' \<rparr>)"
    using a plain by (simp add: fetch_followings_def path Let_def ok_followings_def split: sum.splits)
qed

text \<open>
  C2, as the code has it. On a cache miss with a successful upstream fetch, the fresh
  value is answered with status 200 only when the cache write and, for the followings,
  the index upsert succeed. When the cache write fails, \<open>fetchContent\<close> fails with
  that error and \<open>fetchFollowings\<close> answers 500 with its message; when the index
  upsert fails, \<open>fetchFollowings\<close> answers 500 with its message.
\<close>

theorem write_failure_fails_the_read:
  assumes path: "parse_path ev = Some (pn, un)"
    and get: "redis_get_error env = None"
  shows "(contents_cache w (contents_key pn un (since_of ev)) = None
            \<and> contentStrategy env pn = Inr cstrat
            \<and> fetchContent cstrat un (since_of ev) = Inr cs \<longrightarrow>
            fst (fetch_contents env ev w)
              = (case redis_set_error env of
                   Some e \<Rightarrow> Inl e
                 | None \<Rightarrow> Inr \<lparr> statusCode = 200, rbody = ContentsBody cs (now env) \<rparr>))
       \<and> (search_query (runtime env) ev = None
            \<and> followings_cache w (followings_key pn un) = None
            \<and> followingStrategy env pn = Inr strat
            \<and> isUserExists strat un = Inr True
            \<and> getFollowings strat un = Inr fs \<longrightarrow>
            fst (fetch_followings env ev w)
              = (case redis_set_error env of
                   Some e \<Rightarrow> Inr \<lparr> statusCode = 500, rbody = InternalErrorBody (error_message e) \<rparr>
                 | None \<Rightarrow>
                     (case index_upsert_error env of
                        Some e \<Rightarrow> Inr \<lparr> statusCode = 500, rbody = InternalErrorBody (error_message e) \<rparr>
                      | None \<Rightarrow> Inr \<lparr> statusCode = 200, rbody = FollowingsBody fs (now env) \<rparr>)))"
proof (intro conjI impI)
  assume "contents_cache w (contents_key pn un (since_of ev)) = None
            \<and> contentStrategy env pn = Inr cstrat
            \<and> fetchContent cstrat un (since_of ev) = Inr cs"
  then show "fst (fetch_contents env ev w)
              = (case redis_set_error env of
                   Some e \<Rightarrow> Inl e
                 | None \<Rightarrow> Inr \<lparr> statusCode = 200, rbody = ContentsBody cs (now env) \<rparr>)"
    by (simp add: fetch_contents_def path get Let_def split: option.splits)
next
  assume a: "search_query (runtime env) ev = None
            \<and> followings_cache w (followings_key pn un) = None
            \<and> followingStrategy env pn = Inr strat
            \<and> isUserExists strat un = Inr True
            \<and> getFollowings strat un = Inr fs"
  let ?w1 = "w\<lparr> calls := calls w @ [CallUserExists pn un] \<rparr>"
  have fas: "fst (fetch_and_store env strat pn un ?w1)
               = (case redis_set_error env of
                    Some e \<Rightarrow> Inl e
                  | None \<Rightarrow> (case index_upsert_error env of Some e \<Rightarrow> Inl e | None \<Rightarrow> Inr fs))"
    using a by (simp add: fetch_and_store_def storeFollowingsForSearch_def Let_def split: option.splits)
  have plain: "fst (plain_branch env strat pn un ?w1)
                 = (case fst (fetch_and_store env strat pn un ?w1) of
                      Inl e \<Rightarrow> Inr (internal_error e)
                    | Inr fs \<Rightarrow> Inr (ok_followings fs (now env)))"
    using a by (simp add: plain_branch_def redis_get_followings_ok [OF get] live_plain_def
        split: prod.splits sum.splits)
  show "fst (fetch_followings env ev w)
              = (case redis_set_error env of
                   Some e \<Rightarrow> Inr \<lparr> statusCode = 500, rbody = InternalErrorBody (error_message e) \<rparr>
                 | None \<Rightarrow>
                     (case index_upsert_error env of
                        Some e \<Rightarrow> Inr \<lparr> statusCode = 500, rbody = InternalErrorBody (error_message e) \<rparr>
                      | None \<Rightarrow> Inr \<lparr> statusCode = 200, rbody = FollowingsBody fs (now env) \<rparr>))"
    using a
    by (simp add: fetch_followings_def path Let_def plain fas internal_error_def ok_followings_def
        split: option.splits)
qed


lemma parse_alice: "parse_path \<lparr> pathParameters = Some alice_path, queryStringParameters = q \<rparr>
                      = Some (''MEDIUM'', ''alice'')"
  by (simp add: parse_path_def alice_path_def platform_enum_def)

lemma plain_no_search: "search_query rt ev_plain = None"
  by (simp add: search_query_def query_param_def ev_plain_def)

lemma plain_since: "since_of ev_plain = ''all''"
  by (simp add: since_of_def query_param_def ev_plain_def)

lemma api_ok_fields:
  "redis_get_error api_ok = None" "redis_set_error api_ok = None"
  "index_upsert_error api_ok = None" "index_search_error api_ok = None"
  "followingStrategy api_ok pn = Inr strategy_found"
  "contentStrategy api_ok pn = Inr content_strategy"
  "now api_ok = ''2024-01-08T09:00:00.000Z''"
  by (simp_all add: api_ok_def)

lemma cached_entries:
  "followings_cache world_cached (followings_key ''MEDIUM'' ''alice'')
     = Some (\<lparr> cf_followings = [grace], cf_fetchedAt = ''2024-01-07T08:00:00.000Z'' \<rparr>, 86400)"
  "contents_cache world_cached (contents_key ''MEDIUM'' ''alice'' ''all'')
     = Some (\<lparr> cc_contents = [an_item], cc_fetchedAt = ''2024-01-07T08:00:00.000Z'' \<rparr>, 86400)"
  "calls world_cached = []"
  by (simp_all add: world_cached_def followings_key_def FOLLOWINGS_KEY_PREFIX_def contents_key_def)

text \<open>Both reads of \<open>alice\<close> against the stores that hold her snapshots.\<close>

theorem cache_hit_alice:
  "fetch_contents api_ok ev_plain world_cached
     = (Inr \<lparr> statusCode = 200,
               rbody = ContentsBody [an_item] ''2024-01-07T08:00:00.000Z'' \<rparr>, world_cached)
   \<and> snd (fetch_followings api_ok ev_plain world_cached)
       = world_cached\<lparr> calls := [CallUserExists ''MEDIUM'' ''alice''] \<rparr>
   \<and> fst (fetch_followings api_ok ev_plain world_cached)
       = Inr \<lparr> statusCode = 200,
                rbody = FollowingsBody [grace] ''2024-01-07T08:00:00.000Z'' \<rparr>"
proof -
  have path: "parse_path ev_plain = Some (''MEDIUM'', ''alice'')"
    by (simp add: ev_plain_def parse_alice)
  show ?thesis
    using cache_hit_is_served_from_the_cache
            [OF path api_ok_fields(1), of world_cached _ _ _ _ strategy_found]
    by (simp add: plain_since plain_no_search cached_entries api_ok_fields strategy_found_def)
qed

text \<open>
  C1 as stated fails for the followings: with the entry in the cache the handler
  still calls \<open>userExists\<close>, and when that reports no such user the cached value is
  not returned.
\<close>

theorem followings_hit_still_calls_upstream:
  "followings_cache world_cached (followings_key ''MEDIUM'' ''alice'')
     = Some (\<lparr> cf_followings = [grace], cf_fetchedAt = ''2024-01-07T08:00:00.000Z'' \<rparr>, 86400)
   \<and> parse_path ev_plain = Some (''MEDIUM'', ''alice'')
   \<and> search_query (runtime api_ok) ev_plain = None
   \<and> calls world_cached = []
   \<and> calls (snd (fetch_followings api_ok ev_plain world_cached))
       = [CallUserExists ''MEDIUM'' ''alice'']
   \<and> fst (fetch_followings api_gone ev_plain world_cached)
       = Inr \<lparr> statusCode = 404, rbody = ErrorBody ''user not found'' \<rparr>"
proof -
  have path: "parse_path ev_plain = Some (''MEDIUM'', ''alice'')"
    by (simp add: ev_plain_def parse_alice)
  have 1: "calls (snd (fetch_followings api_ok ev_plain world_cached))
             = [CallUserExists ''MEDIUM'' ''alice'']"
    by (simp add: fetch_followings_def path api_ok_fields strategy_found_def plain_no_search
        plain_branch_def redis_get_followings_def cached_entries)
  have 2: "fst (fetch_followings api_gone ev_plain world_cached)
             = Inr \<lparr> statusCode = 404, rbody = ErrorBody ''user not found'' \<rparr>"
    by (simp add: fetch_followings_def path api_gone_def api_ok_def strategy_gone_def)
  from cached_entries path plain_no_search 1 2 show ?thesis by (intro conjI)
qed


lemma index_search_filtered:
  assumes "d \<in> set (index_search env idx q (followings_filter pn un) n)"
  shows "d \<in> snd ` set idx \<and> platformName d = pn \<and> parentUsername d = un"
proof -
  from assms have "d \<in> set (filter (\<lambda>d. passes_filter (followings_filter pn un) d \<and> query_matches env q d)
                                (map snd idx))"
    unfolding index_search_def by (rule in_set_takeD)
  then show ?thesis
    by (auto simp: passes_filter_def followings_filter_def doc_field_def)
qed

lemma searchFollowings_sound:
  assumes "searchFollowings env pn un q w = Inr fs" and "f \<in> set fs"
  shows "\<exists>d \<in> snd ` set (search_index w). f = search_result d \<and> platformName d = pn \<and> parentUsername d = un"
proof -
  from assms obtain d where
    "d \<in> set (index_search env (search_index w) q (followings_filter pn un) 1000)"
    and "f = search_result d"
    by (auto simp: searchFollowings_def split: option.splits)
  then show ?thesis
    using index_search_filtered [of d env "search_index w" q pn un 1000] by blast
qed

lemma live_search_sound:
  assumes "live_search env strat pn un q w = (Inr r, w')" and "rbody r = FollowingsBody fs fetched"
    and "f \<in> set fs"
  shows "\<exists>d \<in> snd ` set (search_index w'). f = search_result d \<and> platformName d = pn \<and> parentUsername d = un"
proof (cases "fetch_and_store env strat pn un w")
  case (Pair res w2)
  show ?thesis
  proof (cases res)
    case (Inl e)
    with Pair assms show ?thesis
      by (auto simp: live_search_def internal_error_def)
  next
    case (Inr got)
    show ?thesis
    proof (cases "searchFollowings env pn un q w2")
      case (Inl e)
      with Pair \<open>res = Inr got\<close> assms show ?thesis
        by (auto simp: live_search_def internal_error_def)
    next
      case (Inr results)
      with Pair \<open>res = Inr got\<close> assms have "w' = w2" and "fs = results"
        by (auto simp: live_search_def ok_followings_def)
      with Inr assms(3) show ?thesis
        using searchFollowings_sound [of env pn un q w2 results f] by simp
    qed
  qed
qed

lemma search_branch_sound:
  assumes "search_branch env strat pn un q w = (Inr r, w')" and "rbody r = FollowingsBody fs fetched"
    and "f \<in> set fs"
  shows "\<exists>d \<in> snd ` set (search_index w'). f = search_result d \<and> platformName d = pn \<and> parentUsername d = un"
proof (cases "redis_get_followings env w (followings_key pn un)")
  case (Inl e)
  with assms show ?thesis by (simp add: search_branch_def)
next
  case (Inr cached)
  show ?thesis
  proof (cases cached)
    case None
    with Inr assms(1) have "live_search env strat pn un q w = (Inr r, w')"
      by (simp add: search_branch_def)
    then show ?thesis using assms(2,3) by (rule live_search_sound)
  next
    case (Some c)
    show ?thesis
    proof (cases "searchFollowings env pn un q w")
      case (Inl e)
      with Inr Some assms show ?thesis by (simp add: search_branch_def)
    next
      case res: (Inr results)
      show ?thesis
      proof (cases "results \<noteq> [] \<or> cf_fetchedAt c \<noteq> []")
        case True
        with Inr Some res assms have "w' = w" and "fs = results"
          by (auto simp: search_branch_def ok_followings_def)
        with res assms(3) show ?thesis
          using searchFollowings_sound [of env pn un q w results f] by simp
      next
        case False
        with Inr Some res assms(1) have "live_search env strat pn un q w = (Inr r, w')"
          by (simp add: search_branch_def)
        then show ?thesis using assms(2,3) by (rule live_search_sound)
      qed
    qed
  qed
qed

text \<open>
  C8. For a valid followings request with a search query: whenever the handler answers
  with followings, each of them is the projection of an index document whose platform
  is the requested platform and whose parent user is the requested user; and when the
  user exists, the cache holds a snapshot for the key (with its \<open>fetchedAt\<close>, as every
  snapshot the handler writes has) and the cache and the index answer, the handler
  answers 200 with the filtered search results paired with that cached \<open>fetchedAt\<close>,
  without touching the stores or calling the listing.
\<close>

theorem search_results_filtered_and_paired:
  assumes path: "parse_path ev = Some (pn, un)"
    and query: "search_query (runtime env) ev = Some q"
  shows "(\<forall>r w' fs fetched.
            fetch_followings env ev w = (Inr r, w') \<and> rbody r = FollowingsBody fs fetched \<longrightarrow>
            (\<forall>f \<in> set fs. \<exists>d \<in> snd ` set (search_index w').
                f = search_result d \<and> platformName d = pn \<and> parentUsername d = un))
       \<and> (followingStrategy env pn = Inr strat \<and> isUserExists strat un = Inr True
            \<and> redis_get_error env = None \<and> index_search_error env = None
            \<and> followings_cache w (followings_key pn un) = Some (c, ttl)
            \<and> cf_fetchedAt c \<noteq> [] \<longrightarrow>
            fetch_followings env ev w
              = (Inr \<lparr> statusCode = 200,
                        rbody = FollowingsBody
                          (map search_result
                             (index_search env (search_index w) q (followings_filter pn un) 1000))
                          (cf_fetchedAt c) \<rparr>,
                 w\<lparr> calls := calls w @ [CallUserExists pn un] \<rparr>))"
proof (intro conjI allI impI ballI)
  fix r w' fs fetched f
  assume run: "fetch_followings env ev w = (Inr r, w') \<and> rbody r = FollowingsBody fs fetched"
    and f: "f \<in> set fs"
  show "\<exists>d \<in> snd ` set (search_index w').
          f = search_result d \<and> platformName d = pn \<and> parentUsername d = un"
  proof (cases "followingStrategy env pn")
    case (Inl e)
    with run show ?thesis by (simp add: fetch_followings_def path)
  next
    case strat: (Inr st)
    show ?thesis
    proof (cases "isUserExists st un")
      case (Inl e)
      with run strat show ?thesis by (simp add: fetch_followings_def path)
    next
      case (Inr userExists)
      show ?thesis
      proof (cases userExists)
        case False
        with run strat Inr show ?thesis by (auto simp: fetch_followings_def path)
      next
        case True
        with run strat Inr have
          "search_branch env st pn un q (w\<lparr> calls := calls w @ [CallUserExists pn un] \<rparr>) = (Inr r, w')"
          by (simp add: fetch_followings_def path query)
        then show ?thesis
          using run f by (intro search_branch_sound [of env st pn un q _ r w' fs fetched f]) simp_all
      qed
    qed
  qed
next
  assume a: "followingStrategy env pn = Inr strat \<and> isUserExists strat un = Inr True
            \<and> redis_get_error env = None \<and> index_search_error env = None
            \<and> followings_cache w (followings_key pn un) = Some (c, ttl)
            \<and> cf_fetchedAt c \<noteq> []"
  then show "fetch_followings env ev w
              = (Inr \<lparr> statusCode = 200,
                        rbody = FollowingsBody
                          (map search_result
                             (index_search env (search_index w) q (followings_filter pn un) 1000))
                          (cf_fetchedAt c) \<rparr>,
                 w\<lparr> calls := calls w @ [CallUserExists pn un] \<rparr>)"
    by (simp add: fetch_followings_def path query search_branch_def redis_get_followings_def
        searchFollowings_def ok_followings_def)
qed


lemma search_query_ev_search: "search_query rt ev_search = Some ''gra''"
  by (simp add: search_query_def query_param_def ev_search_def js_trim_def is_space_def
      is_ascii_def)

lemma cached_index_search:
  "map search_result
     (index_search api_ok (search_index world_cached) ''gra''
        (followings_filter ''MEDIUM'' ''alice'') 1000) = [grace]"
  by (simp add: index_search_def world_cached_def following_document_def passes_filter_def
      followings_filter_def doc_field_def api_ok_def grace_def edsger_def search_result_def
      or_default_def)

text \<open>
  Searching \<open>alice\<close>'s followings for \<open>gra\<close>: the document of the same following
  under the parent \<open>carol\<close> is in the index and is not returned.
\<close>

theorem search_alice_for_gra:
  "fetch_followings api_ok ev_search world_cached
     = (Inr \<lparr> statusCode = 200,
               rbody = FollowingsBody [grace] ''2024-01-07T08:00:00.000Z'' \<rparr>,
        world_cached\<lparr> calls := [CallUserExists ''MEDIUM'' ''alice''] \<rparr>)
   \<and> following_document ''MEDIUM'' ''carol'' grace \<in> set (search_index world_cached)"
proof -
  have path: "parse_path ev_search = Some (''MEDIUM'', ''alice'')"
    by (simp add: ev_search_def parse_alice)
  have other: "following_document ''MEDIUM'' ''carol'' grace \<in> set (search_index world_cached)"
    by (simp add: world_cached_def)
  show ?thesis
    using search_results_filtered_and_paired
            [OF path search_query_ev_search, of api_ok world_cached strategy_found
               "\<lparr> cf_followings = [grace], cf_fetchedAt = ''2024-01-07T08:00:00.000Z'' \<rparr>" 86400]
          other
    by (simp add: api_ok_fields cached_entries cached_index_search strategy_found_def)
qed

text \<open>The three outcomes of a miss for \<open>alice\<close>.\<close>

theorem write_failures_alice:
  "fst (fetch_contents api_set_fails ev_plain world_empty) = Inl (ErrorObj ''redis unavailable'')
   \<and> fst (fetch_followings api_upsert_fails ev_plain world_empty)
       = Inr \<lparr> statusCode = 500, rbody = InternalErrorBody ''index unavailable'' \<rparr>
   \<and> fst (fetch_followings api_ok ev_plain world_empty)
       = Inr \<lparr> statusCode = 200,
                rbody = FollowingsBody [grace, edsger] ''2024-01-08T09:00:00.000Z'' \<rparr>"
proof -
  have path: "parse_path ev_plain = Some (''MEDIUM'', ''alice'')"
    by (simp add: ev_plain_def parse_alice)
  have g1: "redis_get_error api_set_fails = None"
    and g2: "redis_get_error api_upsert_fails = None"
    by (simp_all add: api_set_fails_def api_upsert_fails_def api_ok_def)
  have 1: "fst (fetch_contents api_set_fails ev_plain world_empty) = Inl (ErrorObj ''redis unavailable'')"
    using write_failure_fails_the_read
            [OF path g1, of world_empty content_strategy "[an_item]" strategy_found "[grace, edsger]"]
    by (simp add: world_empty_def api_set_fails_def api_ok_def content_strategy_def)
  have 2: "fst (fetch_followings api_upsert_fails ev_plain world_empty)
       = Inr \<lparr> statusCode = 500, rbody = InternalErrorBody ''index unavailable'' \<rparr>"
    using write_failure_fails_the_read
            [OF path g2, of world_empty content_strategy "[an_item]" strategy_found "[grace, edsger]"]
    by (simp add: world_empty_def api_upsert_fails_def api_ok_def strategy_found_def plain_no_search)
  have 3: "fst (fetch_followings api_ok ev_plain world_empty)
       = Inr \<lparr> statusCode = 200,
                rbody = FollowingsBody [grace, edsger] ''2024-01-08T09:00:00.000Z'' \<rparr>"
    using write_failure_fails_the_read
            [OF path api_ok_fields(1), of world_empty content_strategy "[an_item]" strategy_found "[grace, edsger]"]
    by (simp add: world_empty_def api_ok_fields strategy_found_def plain_no_search)
  from 1 2 3 show ?thesis by (intro conjI)
qed

text \<open>
  C2 as stated fails: the upstream fetch succeeds, the cache write fails, and the
  caller gets a 500 (followings) or the error itself (contents) instead of the value.
\<close>

theorem cache_write_failure_is_surfaced:
  "followings_cache world_empty (followings_key ''MEDIUM'' ''alice'') = None
   \<and> contents_cache world_empty (contents_key ''MEDIUM'' ''alice'' ''all'') = None
   \<and> getFollowings strategy_found ''alice'' = Inr [grace, edsger]
   \<and> fetchContent content_strategy ''alice'' ''all'' = Inr [an_item]
   \<and> redis_set_error api_set_fails = Some (ErrorObj ''redis unavailable'')
   \<and> fst (fetch_followings api_set_fails ev_plain world_empty)
       = Inr \<lparr> statusCode = 500, rbody = InternalErrorBody ''redis unavailable'' \<rparr>
   \<and> fst (fetch_contents api_set_fails ev_plain world_empty) = Inl (ErrorObj ''redis unavailable'')"
proof -
  have path: "parse_path ev_plain = Some (''MEDIUM'', ''alice'')"
    by (simp add: ev_plain_def parse_alice)
  have 1: "fst (fetch_followings api_set_fails ev_plain world_empty)
       = Inr \<lparr> statusCode = 500, rbody = InternalErrorBody ''redis unavailable'' \<rparr>"
    by (simp add: fetch_followings_def path api_set_fails_def api_ok_def strategy_found_def
        plain_no_search plain_branch_def redis_get_followings_def world_empty_def live_plain_def
        fetch_and_store_def internal_error_def)
  have 2: "fst (fetch_contents api_set_fails ev_plain world_empty) = Inl (ErrorObj ''redis unavailable'')"
    by (simp add: fetch_contents_def path api_set_fails_def api_ok_def content_strategy_def
        world_empty_def)
  have 3: "followings_cache world_empty (followings_key ''MEDIUM'' ''alice'') = None"
    "contents_cache world_empty (contents_key ''MEDIUM'' ''alice'' ''all'') = None"
    "getFollowings strategy_found ''alice'' = Inr [grace, edsger]"
    "fetchContent content_strategy ''alice'' ''all'' = Inr [an_item]"
    "redis_set_error api_set_fails = Some (ErrorObj ''redis unavailable'')"
    by (simp_all add: world_empty_def strategy_found_def content_strategy_def api_set_fails_def)
  from 3 1 2 show ?thesis by (intro conjI)
qed

text \<open>
  C9. Validation reads the path parameters only, and the contents handler answers 400
  exactly when they are rejected. The \<open>since\<close> parameter is taken as it is when it is
  a non-empty string and is \<open>"all"\<close> when it is absent or empty; the cache is read and
  written under \<open>contents:{platform}:{username}:{since}\<close> and the strategy is called
  with that same \<open>since\<close>.
\<close>

theorem since_is_not_validated:
  "parse_path (ev\<lparr> queryStringParameters := qs \<rparr>) = parse_path ev
   \<and> (\<forall>r w'. fetch_contents env ev w = (Inr r, w') \<longrightarrow>
         (statusCode r = 400 \<longleftrightarrow> parse_path ev = None))
   \<and> (\<forall>s. query_param ev ''since'' = Some s \<and> s \<noteq> [] \<longrightarrow> since_of ev = s)
   \<and> (query_param ev ''since'' = None \<or> query_param ev ''since'' = Some [] \<longrightarrow> since_of ev = ''all'')
   \<and> (\<forall>pn un. parse_path ev = Some (pn, un) \<and> redis_get_error env = None \<longrightarrow>
         (\<forall>c ttl. contents_cache w (''contents:'' @ pn @ '':'' @ un @ '':'' @ since_of ev) = Some (c, ttl) \<longrightarrow>
            fetch_contents env ev w
              = (Inr \<lparr> statusCode = 200,
                        rbody = ContentsBody (cc_contents c) (cc_fetchedAt c) \<rparr>, w))
       \<and> (\<forall>strat cs. contents_cache w (''contents:'' @ pn @ '':'' @ un @ '':'' @ since_of ev) = None
              \<and> contentStrategy env pn = Inr strat
              \<and> fetchContent strat un (since_of ev) = Inr cs
              \<and> redis_set_error env = None \<longrightarrow>
            fetch_contents env ev w
              = (Inr \<lparr> statusCode = 200, rbody = ContentsBody cs (now env) \<rparr>,
                 w\<lparr> calls := calls w @ [CallFetchContent pn un (since_of ev)],
                    contents_cache := (contents_cache w)
                      (''contents:'' @ pn @ '':'' @ un @ '':'' @ since_of ev \<mapsto>
                         (\<lparr> cc_contents = cs, cc_fetchedAt = now env \<rparr>, 86400)) \<rparr>)))"
proof (intro conjI allI impI)
  show "parse_path (ev\<lparr> queryStringParameters := qs \<rparr>) = parse_path ev"
    by (simp add: parse_path_def)
next
  fix r w' assume "fetch_contents env ev w = (Inr r, w')"
  then show "statusCode r = 400 \<longleftrightarrow> parse_path ev = None"
    by (auto simp: fetch_contents_def Let_def split: option.splits sum.splits prod.splits)
next
  fix s assume "query_param ev ''since'' = Some s \<and> s \<noteq> []"
  then show "since_of ev = s"
    by (simp add: since_of_def or_default_def)
next
  assume "query_param ev ''since'' = None \<or> query_param ev ''since'' = Some []"
  then show "since_of ev = ''all''"
    by (auto simp: since_of_def or_default_def)
next
  fix pn un c ttl
  assume "parse_path ev = Some (pn, un) \<and> redis_get_error env = None"
    and "contents_cache w (''contents:'' @ pn @ '':'' @ un @ '':'' @ since_of ev) = Some (c, ttl)"
  then show "fetch_contents env ev w
              = (Inr \<lparr> statusCode = 200,
                        rbody = ContentsBody (cc_contents c) (cc_fetchedAt c) \<rparr>, w)"
    by (simp add: fetch_contents_def contents_key_def)
next
  fix pn un strat cs
  assume "parse_path ev = Some (pn, un) \<and> redis_get_error env = None"
    and "contents_cache w (''contents:'' @ pn @ '':'' @ un @ '':'' @ since_of ev) = None
              \<and> contentStrategy env pn = Inr strat
              \<and> fetchContent strat un (since_of ev) = Inr cs
              \<and> redis_set_error env = None"
  then show "fetch_contents env ev w
              = (Inr \<lparr> statusCode = 200, rbody = ContentsBody cs (now env) \<rparr>,
                 w\<lparr> calls := calls w @ [CallFetchContent pn un (since_of ev)],
                    contents_cache := (contents_cache w)
                      (''contents:'' @ pn @ '':'' @ un @ '':'' @ since_of ev \<mapsto>
                         (\<lparr> cc_contents = cs, cc_fetchedAt = now env \<rparr>, 86400)) \<rparr>)"
    by (simp add: fetch_contents_def contents_key_def day_seconds_def Let_def)
qed


text \<open>A \<open>since\<close> outside the documented values is used as it is.\<close>

theorem since_fortnight_is_accepted:
  "since_of ev_since = ''fortnight''
   \<and> fetch_contents api_ok ev_since world_cached
       = (Inr \<lparr> statusCode = 200,
                 rbody = ContentsBody [an_item] ''2024-01-08T09:00:00.000Z'' \<rparr>,
          world_cached\<lparr> calls := [CallFetchContent ''MEDIUM'' ''alice'' ''fortnight''],
                         contents_cache := (contents_cache world_cached)
                           (''contents:MEDIUM:alice:fortnight'' \<mapsto>
                              (\<lparr> cc_contents = [an_item],
                                  cc_fetchedAt = ''2024-01-08T09:00:00.000Z'' \<rparr>, 86400)) \<rparr>)"
proof -
  have q: "query_param ev_since ''since'' = Some ''fortnight''"
    by (simp add: query_param_def ev_since_def)
  have path: "parse_path ev_since = Some (''MEDIUM'', ''alice'')"
    by (simp add: ev_since_def parse_alice)
  have miss: "contents_cache world_cached ''contents:MEDIUM:alice:fortnight'' = None"
    by (simp add: world_cached_def)
  note inst = since_is_not_validated [where ev = ev_since and env = api_ok and w = world_cached]
  from inst q have s: "since_of ev_since = ''fortnight''"
    by simp
  from inst path miss have
    "fetch_contents api_ok ev_since world_cached
       = (Inr \<lparr> statusCode = 200, rbody = ContentsBody [an_item] (now api_ok) \<rparr>,
          world_cached\<lparr> calls := calls world_cached @ [CallFetchContent ''MEDIUM'' ''alice'' ''fortnight''],
                         contents_cache := (contents_cache world_cached)
                           (''contents:MEDIUM:alice:fortnight'' \<mapsto>
                              (\<lparr> cc_contents = [an_item], cc_fetchedAt = now api_ok \<rparr>, 86400)) \<rparr>)"
    by (simp add: s api_ok_fields content_strategy_def)
  with s show ?thesis
    by (simp add: api_ok_fields cached_entries)
qed

text \<open>A contents read that answered 200 is answered the same way when repeated.\<close>

lemma contents_read_after_read:
  assumes "fetch_contents env ev w = (Inr r, w')" and "statusCode r = 200"
    and "redis_get_error env' = None"
  shows "fetch_contents env' ev w' = (Inr r, w')"
proof (cases "parse_path ev")
  case None
  with assms show ?thesis by (auto simp: fetch_contents_def)
next
  case (Some pu)
  obtain pn un where pu: "pu = (pn, un)" by (cases pu)
  show ?thesis
  proof (cases "contents_cache w (contents_key pn un (since_of ev))")
    case hit: (Some entry)
    with assms Some pu show ?thesis
      by (auto simp: fetch_contents_def Let_def split: option.splits prod.splits)
  next
    case None
    with assms Some pu show ?thesis
      by (auto simp: fetch_contents_def Let_def split: option.splits sum.splits)
  qed
qed


end
